theory Spec2Isabelle
  imports Complex_Main "HOL-Library.AList"
begin

section \<open>Candlestick patterns near extremum levels: the optimizing pipeline\<close>

text \<open>
  A shallow embedding of \<^verbatim>\<open>Candlestick-patterns-with-extr-levels-optimizing.py\<close>
  (and of \<^verbatim>\<open>find_extreme_levels\<close> of
  \<^verbatim>\<open>Candlestic-patterns-with-extremum-levels.py\<close>).

  Conventions of the model:
  \<^item> prices and percentages are \<^typ>\<open>real\<close>, a float of the source being the
    real number it denotes. The thresholds of the outcome simulator are computed
    with the rounded operations of binary64 (section on double-precision
    arithmetic). The comparisons of the level detector and of the classifier and
    the quotient of the aggregator are computed exactly; infinities and NaN are
    outside the model;
  \<^item> Python integers are \<^typ>\<open>int\<close>, timestamps are \<^typ>\<open>int\<close>;
  \<^item> a DataFrame with its default \<^verbatim>\<open>RangeIndex\<close> is a list of rows, the label
    of a row being its position;
  \<^item> a raised exception is \<open>Inl\<close> of an \<open>error\<close>, a normal return is \<open>Inr\<close>.
\<close>

subsection \<open>Data\<close>

datatype error = ValueError | KeyError | ZeroDivisionError | IOError | ChartError

text \<open>One row of the frame \<^verbatim>\<open>crypto\<close> as \<^verbatim>\<open>optimize_parameters\<close> prepares it:
  the OHLCV columns and the label \<^verbatim>\<open>candlestick_pattern\<close> (empty when no pattern
  fired on the bar).\<close>

record bar =
  time :: int
  open_p :: real
  high :: real
  low :: real
  close :: real
  volume :: real
  candlestick_pattern :: string

text \<open>Python's \<^verbatim>\<open>sub in s\<close> on strings: \<open>sub\<close> occurs in \<open>s\<close> as a contiguous
  substring.\<close>

fun str_in :: "string \<Rightarrow> string \<Rightarrow> bool" where
  "str_in sub [] = (sub = [])"
| "str_in sub (c # cs) = (take (length sub) (c # cs) = sub \<or> str_in sub cs)"

subsection \<open>Extremum level detector\<close>

text \<open>
  \<^verbatim>\<open>scipy.signal.argrelextrema(data, comparator, order=order)\<close> is a library function;
  it is modelled after its implementation \<^verbatim>\<open>_boolrelextrema\<close> with the default
  \<^verbatim>\<open>mode='clip'\<close>:
  \<^verbatim>\<open>
    if (int(order) != order) or (order < 1):
        raise ValueError('Order must be an int >= 1')
    datalen = data.shape[axis]
    locs = np.arange(0, datalen)
    results = np.ones(data.shape, dtype=bool)
    main = data.take(locs, axis=axis, mode=mode)
    for shift in range(1, order + 1):
        plus = data.take(locs + shift, axis=axis, mode=mode)
        minus = data.take(locs - shift, axis=axis, mode=mode)
        results &= comparator(main, plus)
        results &= comparator(main, minus)
        if ~results.any():
            return results
    return results
  \<close>
  \<^verbatim>\<open>numpy.take\<close> with \<^verbatim>\<open>mode='clip'\<close> replaces an index below 0 by 0 and an index
  beyond the end by the last index.
\<close>

definition clip :: "nat \<Rightarrow> int \<Rightarrow> nat" where
  "clip datalen j = (if j < 0 then 0 else if int datalen \<le> j then datalen - 1 else nat j)"

definition boolrelextrema :: "(real \<Rightarrow> real \<Rightarrow> bool) \<Rightarrow> real list \<Rightarrow> nat \<Rightarrow> nat \<Rightarrow> bool" where
  "boolrelextrema comparator prices order i =
     list_all (\<lambda>shift.
        comparator (prices ! i) (prices ! clip (length prices) (int i + int shift)) \<and>
        comparator (prices ! i) (prices ! clip (length prices) (int i - int shift)))
      [1 ..< Suc order]"

definition argrelextrema :: "real list \<Rightarrow> (real \<Rightarrow> real \<Rightarrow> bool) \<Rightarrow> int \<Rightarrow> error + nat list" where
  "argrelextrema prices comparator order =
     (if order < 1 then Inl ValueError
      else Inr (filter (boolrelextrema comparator prices (nat order)) [0 ..< length prices]))"

text \<open>The touch count of a level:
  \<^verbatim>\<open>(data['close'] - level).abs().lt(level * touch_threshold / 100).sum()\<close>.\<close>

definition touches :: "('a bar_scheme) list \<Rightarrow> real \<Rightarrow> real \<Rightarrow> int" where
  "touches data level touch_threshold =
     int (length (filter (\<lambda>b. \<bar>close b - level\<bar> < level * touch_threshold / 100) data))"

type_synonym level = "real \<times> int"

definition find_extreme_levels ::
  "('a bar_scheme) list \<Rightarrow> int \<Rightarrow> int \<Rightarrow> real \<Rightarrow> error + (level list \<times> level list)" where
  "find_extreme_levels data order min_touches touch_threshold =
     (let prices = map close data in
      case argrelextrema prices (\<lambda>a b. a > b) order of
        Inl e \<Rightarrow> Inl e
      | Inr max_idx \<Rightarrow>
      (case argrelextrema prices (\<lambda>a b. a < b) order of
        Inl e \<Rightarrow> Inl e
      | Inr min_idx \<Rightarrow>
         (let resistance_levels = map (\<lambda>i. (close (data ! i), time (data ! i))) max_idx;
              support_levels = map (\<lambda>i. (close (data ! i), time (data ! i))) min_idx;
              support_levels' = filter (\<lambda>(level, t).
                  touches data level touch_threshold \<ge> min_touches) support_levels;
              resistance_levels' = filter (\<lambda>(level, t).
                  touches data level touch_threshold \<ge> min_touches) resistance_levels
          in Inr (support_levels', resistance_levels'))))"

text \<open>The variant of \<^verbatim>\<open>Candlestic-patterns-with-extremum-levels.py\<close>: the touch
  threshold is fixed at 1 percent (\<^verbatim>\<open>level * 0.01\<close>) and the result is
  \<^verbatim>\<open>sorted(set(...))\<close> of the prices alone.\<close>

definition find_extreme_levels_v1 ::
  "('a bar_scheme) list \<Rightarrow> int \<Rightarrow> int \<Rightarrow> error + (real list \<times> real list)" where
  "find_extreme_levels_v1 data order min_touches =
     (let prices = map close data in
      case argrelextrema prices (\<lambda>a b. a > b) order of
        Inl e \<Rightarrow> Inl e
      | Inr max_idx \<Rightarrow>
      (case argrelextrema prices (\<lambda>a b. a < b) order of
        Inl e \<Rightarrow> Inl e
      | Inr min_idx \<Rightarrow>
         (let resistance_levels = map (\<lambda>i. close (data ! i)) max_idx;
              support_levels = map (\<lambda>i. close (data ! i)) min_idx;
              support_levels' = filter (\<lambda>level.
                  int (length (filter (\<lambda>b. \<bar>close b - level\<bar> < level * (1 / 100)) data))
                    \<ge> min_touches) support_levels;
              resistance_levels' = filter (\<lambda>level.
                  int (length (filter (\<lambda>b. \<bar>close b - level\<bar> < level * (1 / 100)) data))
                    \<ge> min_touches) resistance_levels
          in Inr (sorted_list_of_set (set support_levels'),
                  sorted_list_of_set (set resistance_levels')))))"

text \<open>A five-bar series whose second bar is a local maximum under the clipped
  comparison of window 2.\<close>

definition mk_bar :: "int \<Rightarrow> real \<Rightarrow> real \<Rightarrow> real \<Rightarrow> string \<Rightarrow> bar" where
  "mk_bar t h l c p =
     \<lparr>time = t, open_p = c, high = h, low = l, close = c, volume = 1,
      candlestick_pattern = p\<rparr>"

definition edge_series :: "bar list" where
  "edge_series =
     [mk_bar 0 1 1 1 [], mk_bar 1 5 5 5 [], mk_bar 2 2 2 2 [],
      mk_bar 3 3 3 3 [], mk_bar 4 4 4 4 []]"

subsection \<open>Pattern classifier\<close>

text \<open>The dictionary \<^verbatim>\<open>results\<close> of \<^verbatim>\<open>check_pattern_levels\<close>, with its four fixed
  keys.\<close>

record check_results =
  standard_bull :: bool
  standard_bear :: bool
  logical_bull :: bool
  logical_bear :: bool

text \<open>The test \<^verbatim>\<open>abs(price - level) / price < level_proximity_threshold / 100\<close>.
  HOL's division by zero returns 0, the source's does not: for a zero price the
  floating-point quotient is infinite or undefined and the comparison is false, so
  the model answers false there.\<close>

definition near_level :: "real \<Rightarrow> real \<Rightarrow> real \<Rightarrow> bool" where
  "near_level price level level_proximity_threshold =
     (price \<noteq> 0 \<and> \<bar>price - level\<bar> / price < level_proximity_threshold / 100)"

text \<open>The two \<^verbatim>\<open>for\<close> loops with \<^verbatim>\<open>break\<close>.\<close>

fun support_loop :: "real \<Rightarrow> int \<Rightarrow> real \<Rightarrow> level list \<Rightarrow> check_results \<Rightarrow> check_results" where
  "support_loop price t thr [] results = results"
| "support_loop price t thr ((level, level_time) # rest) results =
     (if near_level price level thr \<and> t > level_time
      then results\<lparr>standard_bull := True, logical_bear := True\<rparr>
      else support_loop price t thr rest results)"

fun resistance_loop :: "real \<Rightarrow> int \<Rightarrow> real \<Rightarrow> level list \<Rightarrow> check_results \<Rightarrow> check_results" where
  "resistance_loop price t thr [] results = results"
| "resistance_loop price t thr ((level, level_time) # rest) results =
     (if near_level price level thr \<and> t > level_time
      then results\<lparr>standard_bear := True, logical_bull := True\<rparr>
      else resistance_loop price t thr rest results)"

definition check_pattern_levels ::
  "real \<Rightarrow> int \<Rightarrow> level list \<Rightarrow> level list \<Rightarrow> real \<Rightarrow> check_results" where
  "check_pattern_levels price t support_levels resistance_levels level_proximity_threshold =
     (let results = \<lparr>standard_bull = False, standard_bear = False,
                      logical_bull = False, logical_bear = False\<rparr>;
          results = support_loop price t level_proximity_threshold support_levels results;
          results = resistance_loop price t level_proximity_threshold resistance_levels results
      in results)"

text \<open>A row of the working copy of the frame in \<^verbatim>\<open>process_crypto_data\<close>: the bar with
  the three columns the function adds.\<close>

record crow = bar +
  standard_pattern :: bool
  logical_pattern :: bool
  pattern_type :: string

text \<open>The body of the classification loop: the columns are cleared first, and set for
  a row whose \<^verbatim>\<open>candlestick_pattern\<close> is a non-empty string.\<close>

definition classify_row :: "level list \<Rightarrow> level list \<Rightarrow> real \<Rightarrow> bar \<Rightarrow> crow" where
  "classify_row support_levels resistance_levels level_proximity_threshold row =
     (let cleared = bar.extend row (crow.fields False False []) in
      if candlestick_pattern row \<noteq> [] then
        (let check_results = check_pattern_levels (close row) (time row)
                support_levels resistance_levels level_proximity_threshold;
             is_bull = str_in ''_Bull'' (candlestick_pattern row);
             is_bear = str_in ''_Bear'' (candlestick_pattern row)
         in if (is_bull \<and> standard_bull check_results) \<or> (is_bear \<and> standard_bear check_results)
            then cleared\<lparr>standard_pattern := True, pattern_type := ''standard''\<rparr>
            else if is_bull \<and> logical_bull check_results
            then cleared\<lparr>logical_pattern := True, pattern_type := ''logical_bull''\<rparr>
            else if is_bear \<and> logical_bear check_results
            then cleared\<lparr>logical_pattern := True, pattern_type := ''logical_bear''\<rparr>
            else cleared)
      else cleared)"

text \<open>The classifier as the specification words it: a level qualifies when it was
  formed strictly before the occurrence and is near; a level set is near when the
  scan in iteration order finds a first qualifying level; the category follows a
  fixed priority.\<close>

datatype category = Standard | Logical_bull | Logical_bear | No_category

definition first_qualifying :: "real \<Rightarrow> int \<Rightarrow> real \<Rightarrow> level list \<Rightarrow> level option" where
  "first_qualifying price t p levels =
     find (\<lambda>(level, formation_time). formation_time < t \<and> near_level price level p) levels"

definition near_set :: "real \<Rightarrow> int \<Rightarrow> real \<Rightarrow> level list \<Rightarrow> bool" where
  "near_set price t p levels = (first_qualifying price t p levels \<noteq> None)"

definition spec_category :: "bool \<Rightarrow> bool \<Rightarrow> bool \<Rightarrow> bool \<Rightarrow> category" where
  "spec_category bullish bearish near_support near_resistance =
     (if (bullish \<and> near_support) \<or> (bearish \<and> near_resistance) then Standard
      else if bullish \<and> near_resistance then Logical_bull
      else if bearish \<and> near_support then Logical_bear
      else No_category)"

fun category_label :: "category \<Rightarrow> string" where
  "category_label Standard = ''standard''"
| "category_label Logical_bull = ''logical_bull''"
| "category_label Logical_bear = ''logical_bear''"
| "category_label No_category = []"

subsection \<open>Double-precision arithmetic\<close>

text \<open>
  The thresholds of the outcome simulator are products of rounded operations, and
  they are compared with bar prices that can sit exactly on them (a stop of 1.5
  percent above 2000 is 2029.9999999999998 in the source, not 2030). So the
  simulator's arithmetic is modelled as IEEE 754 binary64: a double is the real
  number it denotes, and every operation returns the exact result rounded to the
  nearest double, ties to the even significand. Overflow to infinity and NaN are
  outside the model.
\<close>

function bit_length :: "int \<Rightarrow> int" where
  "bit_length n = (if n \<le> 0 then 0 else 1 + bit_length (n div 2))"
  by pat_completeness auto
termination
  by (relation "measure nat") auto

declare bit_length.simps [simp del]

definition pow2 :: "int \<Rightarrow> real" where
  "pow2 k = (if 0 \<le> k then 2 ^ nat k else 1 / 2 ^ nat (- k))"

text \<open>The exponent \<open>e\<close> of a non-zero real: \<open>2 ^ e \<le> \<bar>x\<bar> < 2 ^ (e + 1)\<close>. Below 1 it is
  minus the number of bits of the ceiling of \<open>1 / \<bar>x\<bar>\<close> less one, the ceiling written
  as \<open>- \<lfloor>- y\<rfloor>\<close>.\<close>

definition exponent :: "real \<Rightarrow> int" where
  "exponent x =
     (if 1 \<le> \<bar>x\<bar> then bit_length \<lfloor>\<bar>x\<bar>\<rfloor> - 1
      else - bit_length (- \<lfloor>- (1 / \<bar>x\<bar>)\<rfloor> - 1))"

definition round_half_even :: "real \<Rightarrow> int" where
  "round_half_even m =
     (let f = \<lfloor>m\<rfloor>; d = m - of_int f
      in if d < 1 / 2 then f
         else if 1 / 2 < d then f + 1
         else if even f then f else f + 1)"

text \<open>Rounding to binary64: 53 significant bits, the spacing of the subnormal range
  below the exponent -1022.\<close>

definition fl64 :: "real \<Rightarrow> real" where
  "fl64 x =
     (if x = 0 then 0
      else (let q = pow2 (max (exponent x) (- 1022) - 52)
            in of_int (round_half_even (x / q)) * q))"

definition fadd :: "real \<Rightarrow> real \<Rightarrow> real" where
  "fadd a b = fl64 (a + b)"

definition fsub :: "real \<Rightarrow> real \<Rightarrow> real" where
  "fsub a b = fl64 (a - b)"

definition fmul :: "real \<Rightarrow> real \<Rightarrow> real" where
  "fmul a b = fl64 (a * b)"

definition fdiv :: "real \<Rightarrow> real \<Rightarrow> real" where
  "fdiv a b = fl64 (a / b)"

subsection \<open>Outcome simulator\<close>

text \<open>The two \<^verbatim>\<open>for\<close> loops of \<^verbatim>\<open>analyze_pattern_performance\<close>: \<open>Some b\<close> when the loop
  returns \<open>b\<close>, \<open>None\<close> when it runs off the end of the future rows.\<close>

fun bull_loop :: "real \<Rightarrow> real \<Rightarrow> ('a bar_scheme) list \<Rightarrow> bool option" where
  "bull_loop min_price_threshold target_price [] = None"
| "bull_loop min_price_threshold target_price (row # rest) =
     (if low row < min_price_threshold then Some False
      else if high row \<ge> target_price then Some True
      else bull_loop min_price_threshold target_price rest)"

fun bear_loop :: "real \<Rightarrow> real \<Rightarrow> ('a bar_scheme) list \<Rightarrow> bool option" where
  "bear_loop max_price_threshold target_price [] = None"
| "bear_loop max_price_threshold target_price (row # rest) =
     (if high row > max_price_threshold then Some False
      else if low row \<le> target_price then Some True
      else bear_loop max_price_threshold target_price rest)"

text \<open>\<open>pattern_row\<close> is a row with its label: \<^verbatim>\<open>pattern_row.name\<close> is the first
  component. \<^verbatim>\<open>data.loc[pattern_idx + 1:]\<close> is the rows after that position. The
  thresholds are the source's expressions \<^verbatim>\<open>pattern_price * (1 - stop_percent / 100)\<close>
  and its three siblings, operation by operation in doubles.\<close>

definition analyze_pattern_performance ::
  "('a bar_scheme) list \<Rightarrow> nat \<times> 'a bar_scheme \<Rightarrow> string \<Rightarrow> real \<Rightarrow> real \<Rightarrow> bool" where
  "analyze_pattern_performance data pattern_row ptype target_percent stop_percent =
     (let pattern_idx = fst pattern_row;
          pattern_price = close (snd pattern_row);
          future_data = drop (pattern_idx + 1) data
      in if future_data = [] then False
         else if str_in ''Bull'' ptype then
           (let min_price_threshold = fmul pattern_price (fsub 1 (fdiv stop_percent 100));
                target_price = fmul pattern_price (fadd 1 (fdiv target_percent 100))
            in case bull_loop min_price_threshold target_price future_data of
                 Some b \<Rightarrow> b | None \<Rightarrow> False)
         else if str_in ''Bear'' ptype then
           (let max_price_threshold = fmul pattern_price (fadd 1 (fdiv stop_percent 100));
                target_price = fmul pattern_price (fsub 1 (fdiv target_percent 100))
            in case bear_loop max_price_threshold target_price future_data of
                 Some b \<Rightarrow> b | None \<Rightarrow> False)
         else False)"

text \<open>The reference scan of the specification: one scan, parametrised by the
  direction, that checks the stop before the target on every bar. The stop and
  target prices \<open>entry * (1 - s/100)\<close> and \<open>entry * (1 + t/100)\<close> are the values these
  expressions have in double arithmetic.\<close>

datatype direction = Bullish | Bearish

datatype outcome = Success | Failure

fun stop_hit :: "direction \<Rightarrow> real \<Rightarrow> real \<Rightarrow> 'a bar_scheme \<Rightarrow> bool" where
  "stop_hit Bullish entry s b = (low b < fmul entry (fsub 1 (fdiv s 100)))"
| "stop_hit Bearish entry s b = (high b > fmul entry (fadd 1 (fdiv s 100)))"

fun target_hit :: "direction \<Rightarrow> real \<Rightarrow> real \<Rightarrow> 'a bar_scheme \<Rightarrow> bool" where
  "target_hit Bullish entry t b = (high b \<ge> fmul entry (fadd 1 (fdiv t 100)))"
| "target_hit Bearish entry t b = (low b \<le> fmul entry (fsub 1 (fdiv t 100)))"

fun reference_scan :: "direction \<Rightarrow> real \<Rightarrow> real \<Rightarrow> real \<Rightarrow> ('a bar_scheme) list \<Rightarrow> outcome" where
  "reference_scan d entry t s [] = Failure"
| "reference_scan d entry t s (b # future) =
     (if stop_hit d entry s b then Failure
      else if target_hit d entry t b then Success
      else reference_scan d entry t s future)"

text \<open>The four pattern types the pipeline passes to the simulator.\<close>

definition bullish_type :: "string \<Rightarrow> bool" where
  "bullish_type ptype = (ptype = ''Bull'' \<or> ptype = ''L_Bull'')"

definition bearish_type :: "string \<Rightarrow> bool" where
  "bearish_type ptype = (ptype = ''Bear'' \<or> ptype = ''L_Bear'')"

subsection \<open>Accuracy aggregator\<close>

definition MIN_ACCURACY_THRESHOLD :: real where
  "MIN_ACCURACY_THRESHOLD = 60"

definition MIN_PREDICTIONS_COUNT :: int where
  "MIN_PREDICTIONS_COUNT = 3"

text \<open>The counters \<^verbatim>\<open>{'total': 0, 'success': 0}\<close> of one pattern type, and the
  dictionary \<^verbatim>\<open>pattern_stats\<close> as an association list in insertion order.\<close>

record stats =
  total_count :: int
  success_count :: int

type_synonym pattern_stats = "(string \<times> stats) list"

definition init_pattern_stats :: pattern_stats where
  "init_pattern_stats =
     [(''Bull'', \<lparr>total_count = 0, success_count = 0\<rparr>),
      (''Bear'', \<lparr>total_count = 0, success_count = 0\<rparr>),
      (''L_Bull'', \<lparr>total_count = 0, success_count = 0\<rparr>),
      (''L_Bear'', \<lparr>total_count = 0, success_count = 0\<rparr>)]"

text \<open>The accumulation loop of \<^verbatim>\<open>calculate_average_accuracy\<close>.\<close>

fun sum_stats :: "pattern_stats \<Rightarrow> int \<times> int \<Rightarrow> int \<times> int" where
  "sum_stats [] acc = acc"
| "sum_stats ((ptype, st) # rest) (total_success, total_patterns) =
     (if total_count st > 0
      then sum_stats rest (total_success + success_count st, total_patterns + total_count st)
      else sum_stats rest (total_success, total_patterns))"

text \<open>Python's \<^verbatim>\<open>/\<close> on integers raises on a zero divisor.\<close>

definition truediv :: "int \<Rightarrow> int \<Rightarrow> error + real" where
  "truediv a b = (if b = 0 then Inl ZeroDivisionError else Inr (real_of_int a / real_of_int b))"

definition calculate_average_accuracy :: "pattern_stats \<Rightarrow> error + (real \<times> int)" where
  "calculate_average_accuracy ps =
     (case sum_stats ps (0, 0) of (total_success, total_patterns) \<Rightarrow>
        if total_patterns \<ge> MIN_PREDICTIONS_COUNT then
          (case truediv total_success total_patterns of
             Inl e \<Rightarrow> Inl e
           | Inr q \<Rightarrow> Inr (q * 100, total_patterns))
        else Inr (0, total_patterns))"

text \<open>The sums the specification speaks of, over all entries of a table.\<close>

definition sum_total :: "pattern_stats \<Rightarrow> int" where
  "sum_total ps = sum_list (map (\<lambda>(k, st). total_count st) ps)"

definition sum_success :: "pattern_stats \<Rightarrow> int" where
  "sum_success ps = sum_list (map (\<lambda>(k, st). success_count st) ps)"

definition wf_stats :: "pattern_stats \<Rightarrow> bool" where
  "wf_stats ps = list_all (\<lambda>(k, st). 0 \<le> success_count st \<and> success_count st \<le> total_count st) ps"

subsection \<open>Processing one parameter combination\<close>

text \<open>\<^verbatim>\<open>pattern_stats[pattern_type]['total'] += 1\<close> and the same for
  \<^verbatim>\<open>'success'\<close>: a missing key raises.\<close>

definition bump_total :: "string \<Rightarrow> pattern_stats \<Rightarrow> error + pattern_stats" where
  "bump_total k ps =
     (case map_of ps k of
        None \<Rightarrow> Inl KeyError
      | Some st \<Rightarrow> Inr (AList.update k (st\<lparr>total_count := total_count st + 1\<rparr>) ps))"

definition bump_success :: "string \<Rightarrow> pattern_stats \<Rightarrow> error + pattern_stats" where
  "bump_success k ps =
     (case map_of ps k of
        None \<Rightarrow> Inl KeyError
      | Some st \<Rightarrow> Inr (AList.update k (st\<lparr>success_count := success_count st + 1\<rparr>) ps))"

text \<open>The key under which a classified row is counted.\<close>

definition stats_key :: "crow \<Rightarrow> string" where
  "stats_key row =
     (if pattern_type row = ''standard'' then
        (if str_in ''_Bull'' (candlestick_pattern row) then ''Bull'' else ''Bear'')
      else if pattern_type row = ''logical_bull'' then ''L_Bull''
      else if pattern_type row = ''logical_bear'' then ''L_Bear''
      else [])"

definition stats_step ::
  "crow list \<Rightarrow> real \<Rightarrow> real \<Rightarrow> nat \<times> crow \<Rightarrow> pattern_stats \<Rightarrow> error + pattern_stats" where
  "stats_step crypto target_percent stop_percent irow ps =
     (let ptype = stats_key (snd irow) in
      case bump_total ptype ps of
        Inl e \<Rightarrow> Inl e
      | Inr ps1 \<Rightarrow>
          if analyze_pattern_performance crypto irow ptype target_percent stop_percent
          then bump_success ptype ps1
          else Inr ps1)"

fun stats_loop ::
  "crow list \<Rightarrow> real \<Rightarrow> real \<Rightarrow> (nat \<times> crow) list \<Rightarrow> pattern_stats \<Rightarrow> error + pattern_stats" where
  "stats_loop crypto target_percent stop_percent [] ps = Inr ps"
| "stats_loop crypto target_percent stop_percent (irow # rest) ps =
     (case stats_step crypto target_percent stop_percent irow ps of
        Inl e \<Rightarrow> Inl e
      | Inr ps1 \<Rightarrow> stats_loop crypto target_percent stop_percent rest ps1)"

record candle_result =
  pattern_stats :: pattern_stats
  avg_accuracy :: real
  total_predictions :: int
  pattern_data :: "(nat \<times> crow) list"

text \<open>\<^verbatim>\<open>crypto[(crypto['standard_pattern']) | (crypto['logical_pattern'])]\<close>: the
  classified rows, each with its label.\<close>

definition all_filtered_patterns :: "crow list \<Rightarrow> (nat \<times> crow) list" where
  "all_filtered_patterns crypto =
     filter (\<lambda>(i, row). standard_pattern row \<or> logical_pattern row) (enumerate 0 crypto)"

text \<open>\<^verbatim>\<open>all_filtered_patterns['candlestick_pattern'].str.contains(candle)\<close>: a regular
  expression search, which for a name of letters and digits (as all names of the
  pattern catalogue are) is the substring test.\<close>

definition select_candle :: "string \<Rightarrow> (nat \<times> crow) list \<Rightarrow> (nat \<times> crow) list" where
  "select_candle candle rows = filter (\<lambda>(i, row). str_in candle (candlestick_pattern row)) rows"

text \<open>The loop over \<^verbatim>\<open>candle_names\<close>; the dictionary \<^verbatim>\<open>results_by_candle\<close> is an
  association list in insertion order (an assignment to a present key keeps its
  place).\<close>

fun candle_loop ::
  "crow list \<Rightarrow> (nat \<times> crow) list \<Rightarrow> real \<Rightarrow> real \<Rightarrow> string list \<Rightarrow>
   (string \<times> candle_result) list \<Rightarrow> error + (string \<times> candle_result) list" where
  "candle_loop crypto filtered target_percent stop_percent [] results = Inr results"
| "candle_loop crypto filtered target_percent stop_percent (candle # rest) results =
     (let pdata = select_candle candle filtered in
      if pdata \<noteq> [] then
        (case stats_loop crypto target_percent stop_percent pdata init_pattern_stats of
           Inl e \<Rightarrow> Inl e
         | Inr ps \<Rightarrow>
           (case calculate_average_accuracy ps of
              Inl e \<Rightarrow> Inl e
            | Inr (acc, n) \<Rightarrow>
                candle_loop crypto filtered target_percent stop_percent rest
                  (AList.update candle
                     \<lparr>pattern_stats = ps, avg_accuracy = acc,
                      total_predictions = n, pattern_data = pdata\<rparr> results)))
      else candle_loop crypto filtered target_percent stop_percent rest results)"

record params =
  extrema_order :: int
  min_touches :: int
  touch_threshold :: real
  level_proximity_threshold :: real
  target_percent :: real
  stop_percent :: real

record pcd_result =
  support_levels :: "level list"
  resistance_levels :: "level list"
  results_by_candle :: "(string \<times> candle_result) list"

text \<open>\<^verbatim>\<open>process_crypto_data\<close>; the six parameters are passed as one record, and the
  global \<^verbatim>\<open>candle_names\<close> is an argument.\<close>

definition process_crypto_data :: "bar list \<Rightarrow> string list \<Rightarrow> params \<Rightarrow> error + pcd_result" where
  "process_crypto_data data candle_names prm =
     (case find_extreme_levels data (extrema_order prm) (min_touches prm) (touch_threshold prm) of
        Inl e \<Rightarrow> Inl e
      | Inr (sl, rl) \<Rightarrow>
         (let crypto = map (classify_row sl rl (level_proximity_threshold prm)) data;
              filtered = all_filtered_patterns crypto
          in case candle_loop crypto filtered (target_percent prm) (stop_percent prm)
                    candle_names [] of
               Inl e \<Rightarrow> Inl e
             | Inr rbc \<Rightarrow>
                 Inr \<lparr>support_levels = sl, resistance_levels = rl, results_by_candle = rbc\<rparr>))"

text \<open>The frame \<^verbatim>\<open>pattern_data\<close> that the code builds for a candle name under a
  parameter combination (empty when the level detector raises).\<close>

definition selected_rows :: "bar list \<Rightarrow> params \<Rightarrow> string \<Rightarrow> (nat \<times> crow) list" where
  "selected_rows data prm candle =
     (case find_extreme_levels data (extrema_order prm) (min_touches prm) (touch_threshold prm) of
        Inl e \<Rightarrow> []
      | Inr (sl, rl) \<Rightarrow>
          select_candle candle
            (all_filtered_patterns (map (classify_row sl rl (level_proximity_threshold prm)) data)))"

text \<open>The specification's notions. A bar is an occurrence of exactly one pattern
  name: its label is that name followed by \<open>_Bull\<close> or \<open>_Bear\<close> (the label is built as
  \<^verbatim>\<open>best_pattern + label\<close>). The classified rows of a combination are the rows with
  a category; the classified occurrences of a name are those of them that are
  occurrences of the name.\<close>

definition occurrence_of :: "string \<Rightarrow> 'a bar_scheme \<Rightarrow> bool" where
  "occurrence_of candle row =
     (candlestick_pattern row = candle @ ''_Bull'' \<or> candlestick_pattern row = candle @ ''_Bear'')"

definition classified_rows :: "bar list \<Rightarrow> params \<Rightarrow> (nat \<times> crow) list" where
  "classified_rows data prm =
     (case find_extreme_levels data (extrema_order prm) (min_touches prm) (touch_threshold prm) of
        Inl e \<Rightarrow> []
      | Inr (sl, rl) \<Rightarrow>
          all_filtered_patterns (map (classify_row sl rl (level_proximity_threshold prm)) data))"

definition classified_occurrences :: "bar list \<Rightarrow> params \<Rightarrow> string \<Rightarrow> (nat \<times> crow) list" where
  "classified_occurrences data prm candle =
     filter (\<lambda>(i, row). occurrence_of candle row) (classified_rows data prm)"

subsection \<open>Parameter search engine\<close>

text \<open>One line of \<^verbatim>\<open>optimization_results.csv\<close>. The accuracy is kept as a number
  (the source prints it with one decimal).\<close>

record csv_row =
  row_params :: params
  candle_name :: string
  row_accuracy :: real
  row_predictions :: int

text \<open>The lines the search prints, one constructor for each \<^verbatim>\<open>print\<close> of the loop
  and of \<^verbatim>\<open>create_and_save_chart\<close> (the texts, which carry times and formatted
  numbers, are left out):
  the progress line with the combination counter and the number of saved charts;
  the chart was saved; the chart file is missing after saving; the handler's line
  for an exception while the chart was made; and the two lines of the loop after
  the chart of a combination was saved or was not.\<close>

datatype message =
    Progress int int
  | Chart_saved csv_row
  | Chart_missing csv_row
  | Chart_error csv_row
  | Combination_saved int csv_row
  | Combination_failed int csv_row

text \<open>The outside world. \<open>render history row\<close> is what plotting and saving the chart
  of \<open>row\<close> does after the lines \<open>history\<close> were written: it raises, or the file
  exists afterwards, or it does not. \<open>append_ok history row\<close> tells whether
  opening the report file and appending \<open>row\<close> succeeds. \<open>print_ok console m\<close> tells
  whether printing \<open>m\<close> after the lines \<open>console\<close> succeeds.\<close>

datatype chart_outcome = Raises | File_exists | File_missing

record env =
  render :: "csv_row list \<Rightarrow> csv_row \<Rightarrow> chart_outcome"
  append_ok :: "csv_row list \<Rightarrow> csv_row \<Rightarrow> bool"
  print_ok :: "message list \<Rightarrow> message \<Rightarrow> bool"

text \<open>\<^verbatim>\<open>print\<close>: the line is added to the console, or an error is raised.\<close>

definition print_line :: "env \<Rightarrow> message list \<Rightarrow> message \<Rightarrow> error + message list" where
  "print_line e console m = (if print_ok e console m then Inr (console @ [m]) else Inl IOError)"

text \<open>The body of the \<^verbatim>\<open>try\<close> block of \<^verbatim>\<open>create_and_save_chart\<close>: drawing and saving,
  then the line about the file, then the return value.\<close>

definition chart_body ::
  "env \<Rightarrow> csv_row list \<Rightarrow> message list \<Rightarrow> csv_row \<Rightarrow> error + (bool \<times> message list)" where
  "chart_body e history console row =
     (case render e history row of
        Raises \<Rightarrow> Inl ChartError
      | File_exists \<Rightarrow>
          (case print_line e console (Chart_saved row) of
             Inl err \<Rightarrow> Inl err
           | Inr console1 \<Rightarrow> Inr (True, console1))
      | File_missing \<Rightarrow>
          (case print_line e console (Chart_missing row) of
             Inl err \<Rightarrow> Inl err
           | Inr console1 \<Rightarrow> Inr (False, console1)))"

text \<open>\<^verbatim>\<open>create_and_save_chart\<close>: an exception of the body is caught by
  \<^verbatim>\<open>except Exception\<close>, whose handler prints a line and returns \<^verbatim>\<open>False\<close>; an
  exception of that \<^verbatim>\<open>print\<close> leaves the function.\<close>

definition create_and_save_chart ::
  "env \<Rightarrow> csv_row list \<Rightarrow> message list \<Rightarrow> csv_row \<Rightarrow> error + (bool \<times> message list)" where
  "create_and_save_chart e history console row =
     (if row_accuracy row \<ge> MIN_ACCURACY_THRESHOLD \<and> row_predictions row \<ge> MIN_PREDICTIONS_COUNT
      then (case chart_body e history console row of
              Inr result \<Rightarrow> Inr result
            | Inl exn \<Rightarrow>
                (case print_line e console (Chart_error row) of
                   Inl err \<Rightarrow> Inl err
                 | Inr console1 \<Rightarrow> Inr (False, console1)))
      else Inr (False, console))"

record search_state =
  combination_counter :: int
  saved_charts :: int
  best_accuracy :: real
  best_params :: "(string \<times> params) option"
  results_file :: "csv_row list"
  console :: "message list"

definition init_state :: search_state where
  "init_state =
     \<lparr>combination_counter = 0, saved_charts = 0, best_accuracy = 0, best_params = None,
      results_file = [], console = []\<rparr>"

type_synonym cell = "params \<times> string \<times> candle_result"

text \<open>The body of the loop over \<^verbatim>\<open>results['results_by_candle'].items()\<close>.\<close>

definition cell_step :: "env \<Rightarrow> cell \<Rightarrow> search_state \<Rightarrow> error + search_state" where
  "cell_step e c st =
     (case c of (prm, candle, candle_results) \<Rightarrow>
      let acc = avg_accuracy candle_results;
          n = total_predictions candle_results;
          row = \<lparr>row_params = prm, candle_name = candle, row_accuracy = acc, row_predictions = n\<rparr>
      in if \<not> append_ok e (results_file st) row then Inl IOError
         else
           (let st1 = st\<lparr>results_file := results_file st @ [row]\<rparr> in
            if acc \<ge> MIN_ACCURACY_THRESHOLD \<and> n \<ge> MIN_PREDICTIONS_COUNT then
              (case create_and_save_chart e (results_file st1) (console st1) row of
                 Inl err \<Rightarrow> Inl err
               | Inr (chart_saved, console1) \<Rightarrow>
                  (let st2 = (if chart_saved then st1\<lparr>saved_charts := saved_charts st1 + 1\<rparr>
                              else st1);
                       line = (if chart_saved then Combination_saved (combination_counter st2) row
                               else Combination_failed (combination_counter st2) row)
                   in case print_line e console1 line of
                        Inl err \<Rightarrow> Inl err
                      | Inr console2 \<Rightarrow>
                         (let st3 = st2\<lparr>console := console2\<rparr>;
                              st4 = (if acc > best_accuracy st3
                                     then st3\<lparr>best_accuracy := acc,
                                              best_params := Some (candle, prm)\<rparr>
                                     else st3)
                          in Inr st4)))
            else Inr st1))"

fun run_cells :: "env \<Rightarrow> search_state \<Rightarrow> cell list \<Rightarrow> error + search_state" where
  "run_cells e st [] = Inr st"
| "run_cells e st (c # cs) =
     (case cell_step e c st of
        Inl err \<Rightarrow> Inl err
      | Inr st1 \<Rightarrow> run_cells e st1 cs)"

text \<open>The six nested loops, as a loop over the combinations in their order.\<close>

definition grid ::
  "int list \<Rightarrow> int list \<Rightarrow> real list \<Rightarrow> real list \<Rightarrow> real list \<Rightarrow> real list \<Rightarrow> params list" where
  "grid eos mts tts lps tps sps =
     concat (map (\<lambda>eo. concat (map (\<lambda>mt. concat (map (\<lambda>tt. concat (map (\<lambda>lp.
       concat (map (\<lambda>tp. map (\<lambda>sp.
         \<lparr>extrema_order = eo, min_touches = mt, touch_threshold = tt,
          level_proximity_threshold = lp, target_percent = tp, stop_percent = sp\<rparr>)
       sps) tps)) lps)) tts)) mts)) eos)"

text \<open>The head of the loop body: the counter is advanced and, on the first and on
  every tenth combination, the progress line is printed.\<close>

definition begin_combination :: "env \<Rightarrow> search_state \<Rightarrow> error + search_state" where
  "begin_combination e st =
     (let st1 = st\<lparr>combination_counter := combination_counter st + 1\<rparr> in
      if combination_counter st1 mod 10 = 0 \<or> combination_counter st1 = 1 then
        (case print_line e (console st1)
                (Progress (combination_counter st1) (saved_charts st1)) of
           Inl err \<Rightarrow> Inl err
         | Inr console1 \<Rightarrow> Inr (st1\<lparr>console := console1\<rparr>))
      else Inr st1)"

fun optimize_loop ::
  "env \<Rightarrow> bar list \<Rightarrow> string list \<Rightarrow> search_state \<Rightarrow> params list \<Rightarrow> error + search_state" where
  "optimize_loop e data candle_names st [] = Inr st"
| "optimize_loop e data candle_names st (prm # rest) =
     (case begin_combination e st of
        Inl err \<Rightarrow> Inl err
      | Inr st0 \<Rightarrow>
     (case process_crypto_data data candle_names prm of
        Inl err \<Rightarrow> Inl err
      | Inr results \<Rightarrow>
         (case run_cells e st0 (map (\<lambda>(candle, cr). (prm, candle, cr)) (results_by_candle results)) of
            Inl err \<Rightarrow> Inl err
          | Inr st1 \<Rightarrow> optimize_loop e data candle_names st1 rest)))"

text \<open>The search of \<^verbatim>\<open>optimize_parameters\<close>, from the prepared frame on to the end
  of the nested loops; the candidate lists are arguments.\<close>

definition optimize_parameters ::
  "env \<Rightarrow> bar list \<Rightarrow> string list \<Rightarrow>
   int list \<Rightarrow> int list \<Rightarrow> real list \<Rightarrow> real list \<Rightarrow> real list \<Rightarrow> real list \<Rightarrow>
   error + search_state" where
  "optimize_parameters e data candle_names eos mts tts lps tps sps =
     optimize_loop e data candle_names init_state (grid eos mts tts lps tps sps)"

text \<open>The best result among a list of examined results as the specification words
  it: the first one whose accuracy no other exceeds; and what the engine holds.\<close>

definition greatest_first :: "csv_row list \<Rightarrow> csv_row option" where
  "greatest_first rows = find (\<lambda>r. list_all (\<lambda>r'. row_accuracy r' \<le> row_accuracy r) rows) rows"

definition kept :: "csv_row \<Rightarrow> bool" where
  "kept r = (row_accuracy r \<ge> MIN_ACCURACY_THRESHOLD \<and> row_predictions r \<ge> MIN_PREDICTIONS_COUNT)"

definition held_best :: "search_state \<Rightarrow> real \<times> (string \<times> params) option" where
  "held_best st = (best_accuracy st, best_params st)"

definition as_best :: "csv_row option \<Rightarrow> real \<times> (string \<times> params) option" where
  "as_best ro =
     (case ro of None \<Rightarrow> (0, None)
      | Some r \<Rightarrow> (row_accuracy r, Some (candle_name r, row_params r)))"

text \<open>The report line of a cell.\<close>

definition row_of :: "cell \<Rightarrow> csv_row" where
  "row_of c =
     (case c of (prm, candle, candle_results) \<Rightarrow>
        \<lparr>row_params = prm, candle_name = candle,
         row_accuracy = avg_accuracy candle_results,
         row_predictions = total_predictions candle_results\<rparr>)"

text \<open>The cells a combination contributes to the enumeration (none when processing
  it raises).\<close>

definition cells_of :: "bar list \<Rightarrow> string list \<Rightarrow> params \<Rightarrow> cell list" where
  "cells_of data candle_names prm =
     (case process_crypto_data data candle_names prm of
        Inl err \<Rightarrow> []
      | Inr results \<Rightarrow> map (\<lambda>(candle, cr). (prm, candle, cr)) (results_by_candle results))"

subsection \<open>Example inputs\<close>

text \<open>Entry at 100; the next bar dips to 99, the one after reaches 106.\<close>

definition rally_series :: "bar list" where
  "rally_series = [mk_bar 0 100 100 100 [], mk_bar 1 101 99 100 [], mk_bar 2 106 100 105 []]"

text \<open>Entry at 100; the next bar spans 97 to 106.\<close>

definition spike_series :: "bar list" where
  "spike_series = [mk_bar 0 100 100 100 [], mk_bar 1 106 97 100 []]"

text \<open>A resistance level at 20 formed at time 1, then three bearish dojis, each
  followed by a lower bar.\<close>

definition doji_series :: "bar list" where
  "doji_series =
     [mk_bar 0 10 10 10 [], mk_bar 1 20 20 20 [],
      mk_bar 2 15 15 15 ''CDLDOJI_Bear'', mk_bar 3 15 14 14 ''CDLDOJI_Bear'',
      mk_bar 4 14 13 13 ''CDLDOJI_Bear'', mk_bar 5 13 12 12 []]"

definition doji_params :: params where
  "doji_params =
     \<lparr>extrema_order = 1, min_touches = 1, touch_threshold = 1,
      level_proximity_threshold = 60, target_percent = 3, stop_percent = 1\<rparr>"

definition two_of_two :: pattern_stats where
  "two_of_two =
     [(''Bull'', \<lparr>total_count = 2, success_count = 2\<rparr>),
      (''Bear'', \<lparr>total_count = 0, success_count = 0\<rparr>),
      (''L_Bull'', \<lparr>total_count = 0, success_count = 0\<rparr>),
      (''L_Bear'', \<lparr>total_count = 0, success_count = 0\<rparr>)]"

definition three_of_four :: pattern_stats where
  "three_of_four =
     [(''Bull'', \<lparr>total_count = 1, success_count = 1\<rparr>),
      (''Bear'', \<lparr>total_count = 2, success_count = 1\<rparr>),
      (''L_Bull'', \<lparr>total_count = 0, success_count = 0\<rparr>),
      (''L_Bear'', \<lparr>total_count = 1, success_count = 1\<rparr>)]"

text \<open>The same bars, labelled as modified hikkake patterns.\<close>

definition hikkake_series :: "bar list" where
  "hikkake_series =
     [mk_bar 0 10 10 10 [], mk_bar 1 20 20 20 [],
      mk_bar 2 15 15 15 ''CDLHIKKAKEMOD_Bear'', mk_bar 3 15 14 14 ''CDLHIKKAKEMOD_Bear'',
      mk_bar 4 14 13 13 ''CDLHIKKAKEMOD_Bear'', mk_bar 5 13 12 12 []]"

text \<open>Entry at 2000; the next bar spans 1900 to 2030.\<close>

definition boundary_series :: "bar list" where
  "boundary_series = [mk_bar 0 2000 2000 2000 [], mk_bar 1 2030 1900 2000 []]"

definition all_fine :: env where
  "all_fine =
     \<lparr>render = (\<lambda>history row. File_exists), append_ok = (\<lambda>history row. True),
      print_ok = (\<lambda>console m. True)\<rparr>"

definition always_raising :: env where
  "always_raising =
     \<lparr>render = (\<lambda>history row. Raises), append_ok = (\<lambda>history row. True),
      print_ok = (\<lambda>console m. True)\<rparr>"

definition disk_full :: env where
  "disk_full =
     \<lparr>render = (\<lambda>history row. File_exists), append_ok = (\<lambda>history row. False),
      print_ok = (\<lambda>console m. True)\<rparr>"

definition closed_console :: env where
  "closed_console =
     \<lparr>render = (\<lambda>history row. File_exists), append_ok = (\<lambda>history row. True),
      print_ok = (\<lambda>console m. False)\<rparr>"

text \<open>A result of 50 percent over ten predictions.\<close>

definition weak_cell :: cell where
  "weak_cell =
     (doji_params, ''CDLDOJI'',
      \<lparr>pattern_stats = [(''Bull'', \<lparr>total_count = 10, success_count = 5\<rparr>),
                        (''Bear'', \<lparr>total_count = 0, success_count = 0\<rparr>),
                        (''L_Bull'', \<lparr>total_count = 0, success_count = 0\<rparr>),
                        (''L_Bear'', \<lparr>total_count = 0, success_count = 0\<rparr>)],
       avg_accuracy = 50, total_predictions = 10, pattern_data = []\<rparr>)"

section \<open>Properties\<close>

subsection \<open>Extremum level detector\<close>

text \<open>
  C1 fails on the code. The claim (and the docstring of \<^verbatim>\<open>find_extreme_levels\<close>:
  \<open>order\<close> is the number of candles on both sides that confirm an extremum) asks
  that no level comes from a bar within \<open>w\<close> of a boundary. On the five closes
  1, 5, 2, 3, 4 with window \<open>w = 2\<close>, one touch and a touch threshold of 1 percent,
  both variants return the level 5; the only bar with close 5 is the bar of index 1
  (time 1), which has a single bar on its left.
\<close>

theorem boundary_window_counterexample:
  "find_extreme_levels edge_series 2 1 1 = Inr ([], [(5, 1)]) \<and>
   find_extreme_levels_v1 edge_series 2 1 = Inr ([], [5]) \<and>
   length edge_series = 5 \<and>
   close (edge_series ! 1) = 5 \<and> time (edge_series ! 1) = 1 \<and>
   close (edge_series ! 0) \<noteq> 5 \<and> close (edge_series ! 2) \<noteq> 5 \<and>
   close (edge_series ! 3) \<noteq> 5 \<and> close (edge_series ! 4) \<noteq> 5"
  by code_simp

subsection \<open>Outcome simulator\<close>

lemma bull_loop_reference:
  "(case bull_loop (fmul entry (fsub 1 (fdiv s 100))) (fmul entry (fadd 1 (fdiv t 100))) rows of
      Some b \<Rightarrow> b | None \<Rightarrow> False)
     = (reference_scan Bullish entry t s rows = Success)"
  by (induction rows) simp_all

lemma bear_loop_reference:
  "(case bear_loop (fmul entry (fadd 1 (fdiv s 100))) (fmul entry (fsub 1 (fdiv t 100))) rows of
      Some b \<Rightarrow> b | None \<Rightarrow> False)
     = (reference_scan Bearish entry t s rows = Success)"
  by (induction rows) simp_all

lemma bullish_type_str_in: "bullish_type ptype \<Longrightarrow> str_in ''Bull'' ptype"
  by (auto simp: bullish_type_def)

lemma bearish_type_str_in:
  "bearish_type ptype \<Longrightarrow> \<not> str_in ''Bull'' ptype \<and> str_in ''Bear'' ptype"
  by (auto simp: bearish_type_def)

text \<open>
  C2. For a bullish pattern type (\<open>Bull\<close>, \<open>L_Bull\<close>) the simulator returns success
  exactly when the reference scan over the bars strictly after the occurrence, with
  entry price the occurrence's close, ends in success: stop first (low strictly below
  entry * (1 - s/100)), then target (high at or above entry * (1 + t/100)), failure
  when the bars run out or there are none. For a bearish type (\<open>Bear\<close>, \<open>L_Bear\<close>) the
  mirrored scan. The stop and target prices are the values of these expressions in
  the double arithmetic of the source.
\<close>

theorem simulator_is_reference_scan:
  "(bullish_type ptype \<longrightarrow>
      analyze_pattern_performance data (idx, row) ptype t s
        = (reference_scan Bullish (close row) t s (drop (Suc idx) data) = Success)) \<and>
   (bearish_type ptype \<longrightarrow>
      analyze_pattern_performance data (idx, row) ptype t s
        = (reference_scan Bearish (close row) t s (drop (Suc idx) data) = Success))"
proof (intro conjI impI)
  assume "bullish_type ptype"
  then have b: "str_in ''Bull'' ptype" by (rule bullish_type_str_in)
  show "analyze_pattern_performance data (idx, row) ptype t s
        = (reference_scan Bullish (close row) t s (drop (Suc idx) data) = Success)"
  proof (cases "drop (Suc idx) data = []")
    case True
    then show ?thesis by (simp add: analyze_pattern_performance_def)
  next
    case False
    then show ?thesis
      using b bull_loop_reference[of "close row" s t "drop (Suc idx) data"]
      by (simp add: analyze_pattern_performance_def Let_def)
  qed
next
  assume "bearish_type ptype"
  then have b: "\<not> str_in ''Bull'' ptype" "str_in ''Bear'' ptype"
    using bearish_type_str_in by blast+
  show "analyze_pattern_performance data (idx, row) ptype t s
        = (reference_scan Bearish (close row) t s (drop (Suc idx) data) = Success)"
  proof (cases "drop (Suc idx) data = []")
    case True
    then show ?thesis by (simp add: analyze_pattern_performance_def)
  next
    case False
    then show ?thesis
      using b bear_loop_reference[of "close row" s t "drop (Suc idx) data"]
      by (simp add: analyze_pattern_performance_def Let_def)
  qed
qed

text \<open>Entry 100, target 5, stop 2: a dip to 99 and then a high of 106 is a success;
  a single bar from 97 to 106 is a failure (the stop is checked first); a bearish
  occurrence with target 1 and stop 10 succeeds on the dip to 99. Entry 2000, stop
  1.5: the stop price is 2029.9999999999998 in doubles, so a bar with a high of 2030
  stops a bearish occurrence although its low reaches the target.\<close>

theorem simulator_is_reference_scan_witness:
  "bullish_type ''Bull'' \<and>
   analyze_pattern_performance rally_series (0, rally_series ! 0) ''Bull'' 5 2 \<and>
   bullish_type ''L_Bull'' \<and>
   \<not> analyze_pattern_performance spike_series (0, spike_series ! 0) ''L_Bull'' 5 2 \<and>
   bearish_type ''Bear'' \<and>
   analyze_pattern_performance rally_series (0, rally_series ! 0) ''Bear'' 1 10 \<and>
   bearish_type ''L_Bear'' \<and>
   \<not> analyze_pattern_performance boundary_series (0, boundary_series ! 0) ''L_Bear'' 3 1.5"
proof -
  have h1: "bullish_type ''Bull''" and h2: "bullish_type ''L_Bull''"
    by (simp_all add: bullish_type_def)
  have h3: "bearish_type ''Bear''" and h4: "bearish_type ''L_Bear''"
    by (simp_all add: bearish_type_def)
  have r1: "reference_scan Bullish (close (rally_series ! 0)) 5 2 (drop (Suc 0) rally_series)
              = Success"
    by code_simp
  have r2: "reference_scan Bullish (close (spike_series ! 0)) 5 2 (drop (Suc 0) spike_series)
              \<noteq> Success"
    by code_simp
  have r3: "reference_scan Bearish (close (rally_series ! 0)) 1 10 (drop (Suc 0) rally_series)
              = Success"
    by code_simp
  have r4: "reference_scan Bearish (close (boundary_series ! 0)) 3 1.5
              (drop (Suc 0) boundary_series) \<noteq> Success"
    by code_simp
  from simulator_is_reference_scan[of "''Bull''" rally_series 0 "rally_series ! 0" 5 2] h1 r1
  have a1: "analyze_pattern_performance rally_series (0, rally_series ! 0) ''Bull'' 5 2"
    by simp
  from simulator_is_reference_scan[of "''L_Bull''" spike_series 0 "spike_series ! 0" 5 2] h2 r2
  have a2: "\<not> analyze_pattern_performance spike_series (0, spike_series ! 0) ''L_Bull'' 5 2"
    by simp
  from simulator_is_reference_scan[of "''Bear''" rally_series 0 "rally_series ! 0" 1 10] h3 r3
  have a3: "analyze_pattern_performance rally_series (0, rally_series ! 0) ''Bear'' 1 10"
    by simp
  from simulator_is_reference_scan[of "''L_Bear''" boundary_series 0 "boundary_series ! 0" 3 "1.5"]
    h4 r4
  have a4: "\<not> analyze_pattern_performance boundary_series (0, boundary_series ! 0)
              ''L_Bear'' 3 1.5"
    by simp
  from h1 h2 h3 h4 a1 a2 a3 a4 show ?thesis by (intro conjI)
qed

text \<open>
  C9. For a pattern type that contains neither \<open>Bull\<close> nor \<open>Bear\<close> the simulator
  returns \<open>False\<close>, whatever the bars are: neither loop is entered, and the function
  has no raising branch.
\<close>

theorem unknown_type_fails:
  "\<not> str_in ''Bull'' ptype \<Longrightarrow> \<not> str_in ''Bear'' ptype \<Longrightarrow>
     analyze_pattern_performance data pattern_row ptype t s = False"
  by (simp add: analyze_pattern_performance_def Let_def)

theorem unknown_type_fails_witness:
  "\<not> str_in ''Bull'' [] \<and> \<not> str_in ''Bear'' [] \<and>
   analyze_pattern_performance rally_series (0, rally_series ! 0) [] 5 2 = False"
  using unknown_type_fails[of "[]" rally_series "(0, rally_series ! 0)" 5 2] by simp

subsection \<open>Pattern classifier\<close>

lemma support_loop_flags:
  "support_loop price t p levels r =
     (if \<exists>(level, level_time) \<in> set levels. level_time < t \<and> near_level price level p
      then r\<lparr>standard_bull := True, logical_bear := True\<rparr> else r)"
proof (induction levels)
  case Nil
  then show ?case by simp
next
  case (Cons lv levels)
  obtain level level_time where lv: "lv = (level, level_time)" by (cases lv)
  show ?case unfolding lv using Cons.IH
    by (cases "near_level price level p \<and> level_time < t") auto
qed

lemma resistance_loop_flags:
  "resistance_loop price t p levels r =
     (if \<exists>(level, level_time) \<in> set levels. level_time < t \<and> near_level price level p
      then r\<lparr>standard_bear := True, logical_bull := True\<rparr> else r)"
proof (induction levels)
  case Nil
  then show ?case by simp
next
  case (Cons lv levels)
  obtain level level_time where lv: "lv = (level, level_time)" by (cases lv)
  show ?case unfolding lv using Cons.IH
    by (cases "near_level price level p \<and> level_time < t") auto
qed

lemma check_pattern_levels_flags:
  "check_pattern_levels price t sl rl p =
     \<lparr>standard_bull = (\<exists>(level, level_time) \<in> set sl. level_time < t \<and> near_level price level p),
      standard_bear = (\<exists>(level, level_time) \<in> set rl. level_time < t \<and> near_level price level p),
      logical_bull = (\<exists>(level, level_time) \<in> set rl. level_time < t \<and> near_level price level p),
      logical_bear = (\<exists>(level, level_time) \<in> set sl. level_time < t \<and> near_level price level p)\<rparr>"
  by (simp add: check_pattern_levels_def Let_def support_loop_flags resistance_loop_flags)

lemma support_loop_filter:
  "support_loop price t p (filter (\<lambda>(level, level_time). level_time \<noteq> t) levels) r
     = support_loop price t p levels r"
  by (induction levels) auto

lemma resistance_loop_filter:
  "resistance_loop price t p (filter (\<lambda>(level, level_time). level_time \<noteq> t) levels) r
     = resistance_loop price t p levels r"
  by (induction levels) auto

text \<open>
  C5. Each of the four flags of the classifier is set exactly when some level of the
  corresponding set was formed strictly before the occurrence's time and is near its
  price; and the levels whose formation time equals the occurrence's time have no
  influence on the result at all: removing them from both sets leaves it unchanged.
\<close>

theorem near_needs_strictly_earlier_level:
  "(standard_bull (check_pattern_levels price t sl rl p) \<longleftrightarrow>
      (\<exists>(level, level_time) \<in> set sl. level_time < t \<and> near_level price level p)) \<and>
   (logical_bear (check_pattern_levels price t sl rl p) \<longleftrightarrow>
      (\<exists>(level, level_time) \<in> set sl. level_time < t \<and> near_level price level p)) \<and>
   (standard_bear (check_pattern_levels price t sl rl p) \<longleftrightarrow>
      (\<exists>(level, level_time) \<in> set rl. level_time < t \<and> near_level price level p)) \<and>
   (logical_bull (check_pattern_levels price t sl rl p) \<longleftrightarrow>
      (\<exists>(level, level_time) \<in> set rl. level_time < t \<and> near_level price level p)) \<and>
   check_pattern_levels price t sl rl p =
     check_pattern_levels price t
       (filter (\<lambda>(level, level_time). level_time \<noteq> t) sl)
       (filter (\<lambda>(level, level_time). level_time \<noteq> t) rl) p"
proof -
  have "check_pattern_levels price t sl rl p =
     check_pattern_levels price t
       (filter (\<lambda>(level, level_time). level_time \<noteq> t) sl)
       (filter (\<lambda>(level, level_time). level_time \<noteq> t) rl) p"
    by (simp add: check_pattern_levels_def support_loop_filter resistance_loop_filter)
  then show ?thesis by (simp add: check_pattern_levels_flags)
qed

text \<open>An occurrence at price 100 and time 5, a support level at 100 formed at time 5
  and a resistance level at 101 formed at time 4, proximity 2 percent: the support
  level does not count, the resistance level does.\<close>

theorem near_needs_strictly_earlier_level_witness:
  "\<not> standard_bull (check_pattern_levels 100 5 [(100, 5)] [(101, 4)] 2) \<and>
   \<not> logical_bear (check_pattern_levels 100 5 [(100, 5)] [(101, 4)] 2) \<and>
   standard_bear (check_pattern_levels 100 5 [(100, 5)] [(101, 4)] 2) \<and>
   logical_bull (check_pattern_levels 100 5 [(100, 5)] [(101, 4)] 2) \<and>
   check_pattern_levels 100 5 [(100, 5)] [(101, 4)] 2 = check_pattern_levels 100 5 [] [(101, 4)] 2"
  using near_needs_strictly_earlier_level[of 100 5 "[(100, 5)]" "[(101, 4)]" 2]
  by (simp add: near_level_def check_pattern_levels_def)

lemma near_set_iff:
  "near_set price t p levels =
     (\<exists>(level, level_time) \<in> set levels. level_time < t \<and> near_level price level p)"
  by (fastforce simp: near_set_def first_qualifying_def find_None_iff)

text \<open>
  C6. A row with a pattern gets the one category that the priority order gives:
  standard (bullish near support or bearish near resistance), else logical_bull
  (bullish near resistance), else logical_bear (bearish near support), else none;
  where near a level set means that the scan in iteration order finds a first level
  formed before the occurrence whose relative distance is strictly below p/100.
  The two flag columns agree with the category.
\<close>

theorem classification_priority:
  assumes "candlestick_pattern row \<noteq> []"
  shows "pattern_type (classify_row sl rl p row) =
           category_label (spec_category
              (str_in ''_Bull'' (candlestick_pattern row))
              (str_in ''_Bear'' (candlestick_pattern row))
              (near_set (close row) (time row) p sl)
              (near_set (close row) (time row) p rl)) \<and>
         standard_pattern (classify_row sl rl p row) =
           (spec_category
              (str_in ''_Bull'' (candlestick_pattern row))
              (str_in ''_Bear'' (candlestick_pattern row))
              (near_set (close row) (time row) p sl)
              (near_set (close row) (time row) p rl) = Standard) \<and>
         logical_pattern (classify_row sl rl p row) =
           (spec_category
              (str_in ''_Bull'' (candlestick_pattern row))
              (str_in ''_Bear'' (candlestick_pattern row))
              (near_set (close row) (time row) p sl)
              (near_set (close row) (time row) p rl) \<in> {Logical_bull, Logical_bear})"
  using assms
  by (simp add: classify_row_def Let_def check_pattern_levels_flags near_set_iff
        spec_category_def bar.defs crow.defs)

text \<open>A bullish doji at 100, time 5, proximity 2 percent. With the support levels 101
  (formed at 1) and 100 (formed at 2) the scan stops at 101, the first one, and the
  row is standard; with only a resistance level it is logical_bull.\<close>

theorem classification_priority_witness:
  "candlestick_pattern (mk_bar 5 100 100 100 ''CDLDOJI_Bull'') \<noteq> [] \<and>
   first_qualifying 100 5 2 [(101, 1), (100, 2)] = Some (101, 1) \<and>
   pattern_type (classify_row [(101, 1), (100, 2)] [] 2 (mk_bar 5 100 100 100 ''CDLDOJI_Bull''))
     = ''standard'' \<and>
   pattern_type (classify_row [] [(101, 1)] 2 (mk_bar 5 100 100 100 ''CDLDOJI_Bull''))
     = ''logical_bull''"
proof -
  have h: "candlestick_pattern (mk_bar 5 100 100 100 ''CDLDOJI_Bull'') \<noteq> []"
    by (simp add: mk_bar_def)
  have f: "first_qualifying 100 5 2 [(101, 1), (100, 2)] = Some (101, 1)"
    by (simp add: first_qualifying_def near_level_def)
  have e: "close (mk_bar 5 100 100 100 ''CDLDOJI_Bull'') = 100"
    "time (mk_bar 5 100 100 100 ''CDLDOJI_Bull'') = 5"
    "candlestick_pattern (mk_bar 5 100 100 100 ''CDLDOJI_Bull'') = ''CDLDOJI_Bull''"
    by (simp_all add: mk_bar_def)
  have n: "near_set 100 5 2 [(101, 1), (100, 2)]" "\<not> near_set 100 5 2 []"
    "near_set 100 5 2 [(101, 1)]"
    by (simp_all add: near_set_def first_qualifying_def near_level_def)
  have s: "str_in ''_Bull'' ''CDLDOJI_Bull''" "\<not> str_in ''_Bear'' ''CDLDOJI_Bull''"
    by simp_all
  from classification_priority[OF h, of "[(101, 1), (100, 2)]" "[]" 2]
  have a: "pattern_type (classify_row [(101, 1), (100, 2)] [] 2
             (mk_bar 5 100 100 100 ''CDLDOJI_Bull'')) = ''standard''"
    by (simp add: e n s spec_category_def)
  from classification_priority[OF h, of "[]" "[(101, 1)]" 2]
  have b: "pattern_type (classify_row [] [(101, 1)] 2
             (mk_bar 5 100 100 100 ''CDLDOJI_Bull'')) = ''logical_bull''"
    by (simp add: e n s spec_category_def)
  from h f a b show ?thesis by blast
qed

subsection \<open>Accuracy aggregator\<close>

lemma sum_stats_wf:
  "wf_stats ps \<Longrightarrow> sum_stats ps (a, b) = (a + sum_success ps, b + sum_total ps)"
proof (induction ps arbitrary: a b)
  case Nil
  then show ?case by (simp add: sum_success_def sum_total_def)
next
  case (Cons x ps)
  obtain k st where x: "x = (k, st)" by (cases x)
  from Cons.prems x have wf: "wf_stats ps"
    and s: "0 \<le> success_count st" "success_count st \<le> total_count st"
    by (simp_all add: wf_stats_def)
  show ?case
  proof (cases "total_count st > 0")
    case True
    then show ?thesis using Cons.IH[OF wf] x by (simp add: sum_success_def sum_total_def)
  next
    case False
    with s have "total_count st = 0" "success_count st = 0" by simp_all
    then show ?thesis using Cons.IH[OF wf] x by (simp add: sum_success_def sum_total_def)
  qed
qed

lemma calculate_average_accuracy_wf:
  assumes "wf_stats ps"
  shows "calculate_average_accuracy ps =
           Inr (if sum_total ps \<ge> MIN_PREDICTIONS_COUNT
                then real_of_int (sum_success ps) / real_of_int (sum_total ps) * 100
                else 0,
                sum_total ps)"
  using sum_stats_wf[OF assms, of 0 0]
  by (simp add: calculate_average_accuracy_def truediv_def MIN_PREDICTIONS_COUNT_def)

text \<open>
  C7. For a table of counters (in every category 0 \<le> success \<le> total): the function
  returns without raising; when the sum of the totals is at least
  \<open>MIN_PREDICTIONS_COUNT\<close> the accuracy is (sum of successes / sum of totals) * 100,
  otherwise it is 0; the sum of the totals is returned as it is in both cases.
\<close>

theorem average_accuracy_gate:
  assumes "wf_stats ps"
  shows "calculate_average_accuracy ps =
           Inr (if sum_total ps \<ge> MIN_PREDICTIONS_COUNT
                then real_of_int (sum_success ps) / real_of_int (sum_total ps) * 100
                else 0,
                sum_total ps)"
  using assms by (rule calculate_average_accuracy_wf)

text \<open>Two successes of two give 0 with a total of 2; three of four give 75 with a
  total of 4; the empty counters give 0 with a total of 0.\<close>

theorem average_accuracy_gate_witness:
  "wf_stats two_of_two \<and> calculate_average_accuracy two_of_two = Inr (0, 2) \<and>
   wf_stats three_of_four \<and> calculate_average_accuracy three_of_four = Inr (75, 4) \<and>
   wf_stats init_pattern_stats \<and> calculate_average_accuracy init_pattern_stats = Inr (0, 0)"
proof -
  have w: "wf_stats two_of_two" "wf_stats three_of_four" "wf_stats init_pattern_stats"
    by (simp_all add: wf_stats_def two_of_two_def three_of_four_def init_pattern_stats_def)
  have s: "sum_total two_of_two = 2" "sum_total three_of_four = 4"
    "sum_success three_of_four = 3" "sum_total init_pattern_stats = 0"
    by (simp_all add: sum_total_def sum_success_def two_of_two_def three_of_four_def
          init_pattern_stats_def)
  from average_accuracy_gate[OF w(1)] have a: "calculate_average_accuracy two_of_two = Inr (0, 2)"
    by (simp add: s MIN_PREDICTIONS_COUNT_def)
  from average_accuracy_gate[OF w(2)]
  have b: "calculate_average_accuracy three_of_four = Inr (75, 4)"
    by (simp add: s MIN_PREDICTIONS_COUNT_def)
  from average_accuracy_gate[OF w(3)]
  have c: "calculate_average_accuracy init_pattern_stats = Inr (0, 0)"
    by (simp add: s MIN_PREDICTIONS_COUNT_def)
  from w a b c show ?thesis by blast
qed

subsection \<open>Processing one parameter combination\<close>

lemma update_sum:
  "map_of ps k = Some st \<Longrightarrow>
     sum_list (map (\<lambda>(k, st). g st) (AList.update k st' ps))
       = sum_list (map (\<lambda>(k, st). g st) ps) - g st + (g st' :: int)"
  by (induction ps) (auto split: if_splits)

lemma update_wf:
  "wf_stats ps \<Longrightarrow> 0 \<le> success_count st' \<Longrightarrow> success_count st' \<le> total_count st' \<Longrightarrow>
     wf_stats (AList.update k st' ps)"
  by (induction ps) (auto simp: wf_stats_def)

lemma update_same_keys:
  "map_of ps k = Some st \<Longrightarrow> map fst (AList.update k st' ps) = map fst ps"
  by (induction ps) (auto split: if_splits)

lemma map_of_wf:
  "wf_stats ps \<Longrightarrow> map_of ps k = Some st \<Longrightarrow> 0 \<le> success_count st \<and> success_count st \<le> total_count st"
  by (induction ps) (auto simp: wf_stats_def split: if_splits)

lemma set_update_subset: "set (AList.update k v al) \<subseteq> insert (k, v) (set al)"
  by (induction al) auto

lemma stats_step_char:
  assumes "map_of ps (stats_key (snd irow)) = Some st"
  shows "stats_step crypto tp sp irow ps =
           Inr (AList.update (stats_key (snd irow))
                  (st\<lparr>total_count := total_count st + 1,
                      success_count := success_count st +
                        (if analyze_pattern_performance crypto irow (stats_key (snd irow)) tp sp
                         then 1 else 0)\<rparr>) ps)"
  using assms
  by (simp add: stats_step_def bump_total_def bump_success_def Let_def AList.update_conv')

lemma stats_step_props:
  assumes m: "stats_key (snd irow) \<in> set (map fst ps)" and wf: "wf_stats ps"
  shows "\<exists>ps'. stats_step crypto tp sp irow ps = Inr ps' \<and> map fst ps' = map fst ps \<and>
           wf_stats ps' \<and> sum_total ps' = sum_total ps + 1"
proof -
  from m obtain st where st: "map_of ps (stats_key (snd irow)) = Some st"
    by (cases "map_of ps (stats_key (snd irow))") (auto simp: map_of_eq_None_iff)
  from map_of_wf[OF wf st] have b: "0 \<le> success_count st" "success_count st \<le> total_count st"
    by simp_all
  let ?st' = "st\<lparr>total_count := total_count st + 1,
                      success_count := success_count st +
                        (if analyze_pattern_performance crypto irow (stats_key (snd irow)) tp sp
                         then 1 else 0)\<rparr>"
  have "wf_stats (AList.update (stats_key (snd irow)) ?st' ps)"
    using b by (intro update_wf[OF wf]) auto
  moreover have "sum_total (AList.update (stats_key (snd irow)) ?st' ps) = sum_total ps + 1"
    unfolding sum_total_def using update_sum[OF st, of total_count ?st'] by simp
  ultimately show ?thesis
    using stats_step_char[OF st, of crypto tp sp] update_same_keys[OF st, of ?st'] by simp
qed

lemma stats_loop_props:
  assumes "\<forall>irow \<in> set rows. stats_key (snd irow) \<in> set (map fst ps)" and "wf_stats ps"
  shows "\<exists>ps'. stats_loop crypto tp sp rows ps = Inr ps' \<and> map fst ps' = map fst ps \<and>
           wf_stats ps' \<and> sum_total ps' = sum_total ps + int (length rows)"
  using assms
proof (induction rows arbitrary: ps)
  case Nil
  then show ?case by simp
next
  case (Cons irow rows)
  from Cons.prems have m: "stats_key (snd irow) \<in> set (map fst ps)" by simp
  from stats_step_props[OF m Cons.prems(2), of crypto tp sp] obtain ps1 where
    s: "stats_step crypto tp sp irow ps = Inr ps1" and k: "map fst ps1 = map fst ps"
    and w: "wf_stats ps1" and t: "sum_total ps1 = sum_total ps + 1" by blast
  from Cons.prems k have "\<forall>irow \<in> set rows. stats_key (snd irow) \<in> set (map fst ps1)" by simp
  from Cons.IH[OF this w] obtain ps' where
    "stats_loop crypto tp sp rows ps1 = Inr ps'" "map fst ps' = map fst ps1"
    "wf_stats ps'" "sum_total ps' = sum_total ps1 + int (length rows)" by blast
  with s k t show ?case by simp
qed

lemma classify_row_key:
  assumes "standard_pattern (classify_row sl rl p row) \<or> logical_pattern (classify_row sl rl p row)"
  shows "stats_key (classify_row sl rl p row) \<in> set (map fst init_pattern_stats)"
  using assms
  by (auto simp: classify_row_def Let_def stats_key_def init_pattern_stats_def bar.defs crow.defs
        split: if_splits)

lemma all_filtered_patterns_mem:
  assumes "irow \<in> set (all_filtered_patterns (map (classify_row sl rl p) data))"
  shows "fst irow < length data \<and> snd irow = classify_row sl rl p (data ! fst irow) \<and>
         stats_key (snd irow) \<in> set (map fst init_pattern_stats)"
proof -
  obtain i r where ir: "irow = (i, r)" by (cases irow)
  from assms ir have "i < length data" "r = classify_row sl rl p (data ! i)"
    "standard_pattern r \<or> logical_pattern r"
    by (auto simp: all_filtered_patterns_def in_set_enumerate_eq)
  with classify_row_key[of sl rl p "data ! i"] ir show ?thesis by simp
qed

lemma wf_sums: "wf_stats ps \<Longrightarrow> 0 \<le> sum_success ps \<and> sum_success ps \<le> sum_total ps"
  by (induction ps) (auto simp: wf_stats_def sum_success_def sum_total_def)

lemma accuracy_range:
  assumes "wf_stats ps" and "calculate_average_accuracy ps = Inr (a, n)"
  shows "0 \<le> a \<and> a \<le> 100 \<and> n = sum_total ps"
proof -
  from wf_sums[OF assms(1)] have b: "0 \<le> sum_success ps" "sum_success ps \<le> sum_total ps" by simp_all
  show ?thesis
  proof (cases "sum_total ps \<ge> MIN_PREDICTIONS_COUNT")
    case True
    then have pos: "0 < sum_total ps" by (simp add: MIN_PREDICTIONS_COUNT_def)
    from True assms calculate_average_accuracy_wf[OF assms(1)]
    have a: "a = real_of_int (sum_success ps) / real_of_int (sum_total ps) * 100" and n: "n = sum_total ps"
      by auto
    define q where "q = real_of_int (sum_success ps) / real_of_int (sum_total ps)"
    from b pos have "0 \<le> q" "q \<le> 1"
      unfolding q_def by (simp_all add: divide_le_eq_1)
    moreover from a have "a = q * 100" unfolding q_def .
    ultimately show ?thesis using n by simp
  next
    case False
    with assms calculate_average_accuracy_wf[OF assms(1)] show ?thesis by simp
  qed
qed


lemma candle_loop_entries:
  assumes "candle_loop crypto filtered tp sp names acc = Inr res" and "(c, cr) \<in> set res"
  shows "(c, cr) \<in> set acc \<or>
         (c \<in> set names \<and> select_candle c filtered \<noteq> [] \<and>
          (\<exists>ps a n. stats_loop crypto tp sp (select_candle c filtered) init_pattern_stats = Inr ps \<and>
             calculate_average_accuracy ps = Inr (a, n) \<and>
             cr = \<lparr>pattern_stats = ps, avg_accuracy = a, total_predictions = n,
                   pattern_data = select_candle c filtered\<rparr>))"
  using assms
proof (induction names arbitrary: acc)
  case Nil
  then show ?case by simp
next
  case (Cons candle names)
  show ?case
  proof (cases "select_candle candle filtered = []")
    case True
    with Cons.prems have "candle_loop crypto filtered tp sp names acc = Inr res" by simp
    from Cons.IH[OF this Cons.prems(2)] show ?thesis by auto
  next
    case False
    with Cons.prems(1) obtain ps a n where
      s: "stats_loop crypto tp sp (select_candle candle filtered) init_pattern_stats = Inr ps" and
      c: "calculate_average_accuracy ps = Inr (a, n)" and
      l: "candle_loop crypto filtered tp sp names
            (AList.update candle \<lparr>pattern_stats = ps, avg_accuracy = a, total_predictions = n,
                   pattern_data = select_candle candle filtered\<rparr> acc) = Inr res"
      by (auto simp: Let_def split: sum.splits)
    let ?v = "\<lparr>pattern_stats = ps, avg_accuracy = a, total_predictions = n,
                   pattern_data = select_candle candle filtered\<rparr>"
    from Cons.IH[OF l Cons.prems(2)]
    consider (new) "(c, cr) \<in> set (AList.update candle ?v acc)"
      | (later) "c \<in> set names \<and> select_candle c filtered \<noteq> [] \<and>
          (\<exists>ps a n. stats_loop crypto tp sp (select_candle c filtered) init_pattern_stats = Inr ps \<and>
             calculate_average_accuracy ps = Inr (a, n) \<and>
             cr = \<lparr>pattern_stats = ps, avg_accuracy = a, total_predictions = n,
                   pattern_data = select_candle c filtered\<rparr>)"
      by blast
    then show ?thesis
    proof cases
      case new
      with set_update_subset[of candle ?v acc] have "(c, cr) = (candle, ?v) \<or> (c, cr) \<in> set acc"
        by blast
      then show ?thesis
      proof
        assume "(c, cr) = (candle, ?v)"
        then have "c = candle" "cr = ?v" by simp_all
        with False s c show ?thesis by auto
      next
        assume "(c, cr) \<in> set acc"
        then show ?thesis by simp
      qed
    next
      case later
      then show ?thesis by simp
    qed
  qed
qed

lemma select_candle_subset: "set (select_candle c rows) \<subseteq> set rows"
  by (auto simp: select_candle_def)

lemma process_crypto_data_cases:
  assumes "process_crypto_data data candle_names prm = Inr res"
  obtains sl rl where
    "find_extreme_levels data (extrema_order prm) (min_touches prm) (touch_threshold prm) = Inr (sl, rl)"
    "support_levels res = sl" "resistance_levels res = rl"
    "candle_loop (map (classify_row sl rl (level_proximity_threshold prm)) data)
       (all_filtered_patterns (map (classify_row sl rl (level_proximity_threshold prm)) data))
       (target_percent prm) (stop_percent prm) candle_names [] = Inr (results_by_candle res)"
  using assms by (auto simp: process_crypto_data_def Let_def split: sum.splits)

lemma process_entry:
  assumes p: "process_crypto_data data candle_names prm = Inr res"
    and m: "(candle, cr) \<in> set (results_by_candle res)"
  shows "pattern_data cr = selected_rows data prm candle \<and> pattern_data cr \<noteq> [] \<and>
         candle \<in> set candle_names \<and>
         map fst (pattern_stats cr) = map fst init_pattern_stats \<and>
         wf_stats (pattern_stats cr) \<and>
         sum_total (pattern_stats cr) = int (length (pattern_data cr)) \<and>
         total_predictions cr = sum_total (pattern_stats cr) \<and>
         0 \<le> avg_accuracy cr \<and> avg_accuracy cr \<le> 100 \<and>
         (\<forall>irow \<in> set (pattern_data cr). stats_key (snd irow) \<in> set (map fst init_pattern_stats))"
proof -
  from p obtain sl rl where
    f: "find_extreme_levels data (extrema_order prm) (min_touches prm) (touch_threshold prm) = Inr (sl, rl)"
    and l: "candle_loop (map (classify_row sl rl (level_proximity_threshold prm)) data)
       (all_filtered_patterns (map (classify_row sl rl (level_proximity_threshold prm)) data))
       (target_percent prm) (stop_percent prm) candle_names [] = Inr (results_by_candle res)"
    by (rule process_crypto_data_cases)
  let ?crypto = "map (classify_row sl rl (level_proximity_threshold prm)) data"
  let ?pd = "select_candle candle (all_filtered_patterns ?crypto)"
  from candle_loop_entries[OF l m] obtain ps a n where
    c: "candle \<in> set candle_names" and ne: "?pd \<noteq> []" and
    s: "stats_loop ?crypto (target_percent prm) (stop_percent prm) ?pd init_pattern_stats = Inr ps" and
    ca: "calculate_average_accuracy ps = Inr (a, n)" and
    cr: "cr = \<lparr>pattern_stats = ps, avg_accuracy = a, total_predictions = n, pattern_data = ?pd\<rparr>"
    by auto
  have keys: "\<forall>irow \<in> set ?pd. stats_key (snd irow) \<in> set (map fst init_pattern_stats)"
    using all_filtered_patterns_mem[of _ sl rl "level_proximity_threshold prm" data]
      select_candle_subset[of candle "all_filtered_patterns ?crypto"] by blast
  have w0: "wf_stats init_pattern_stats" "sum_total init_pattern_stats = 0"
    by (simp_all add: wf_stats_def init_pattern_stats_def sum_total_def)
  from stats_loop_props[OF keys w0(1), of ?crypto "target_percent prm" "stop_percent prm"] s w0(2)
  have ps: "map fst ps = map fst init_pattern_stats" "wf_stats ps" "sum_total ps = int (length ?pd)"
    by auto
  from accuracy_range[OF ps(2) ca] have r: "0 \<le> a" "a \<le> 100" "n = sum_total ps" by simp_all
  have o: "selected_rows data prm candle = ?pd" using f by (simp add: selected_rows_def)
  from cr ps r o ne c keys show ?thesis by simp
qed



text \<open>
  C10 fails on the code. The claim asks that the totals of a candle name sum to the
  number of classified occurrences of that candle. The rows of a name are selected
  by a substring test on the label, so the rows of another pattern whose name
  contains the name are counted too: with three classified bars labelled
  \<open>CDLHIKKAKEMOD_Bear\<close> and no bar labelled \<open>CDLHIKKAKE\<close>, the table of
  \<open>CDLHIKKAKE\<close> has a total of 3 and reports 3 predictions, while \<open>CDLHIKKAKE\<close> has
  no classified occurrence (and \<open>CDLHIKKAKEMOD\<close> has its own 3).
\<close>

theorem substring_selection_miscounts:
  "map_sum id
     (\<lambda>res. map (\<lambda>(c, cr). (c, sum_total (pattern_stats cr), total_predictions cr))
               (results_by_candle res))
     (process_crypto_data hikkake_series [''CDLHIKKAKE'', ''CDLHIKKAKEMOD''] doji_params)
     = Inr [(''CDLHIKKAKE'', 3, 3), (''CDLHIKKAKEMOD'', 3, 3)] \<and>
   classified_occurrences hikkake_series doji_params ''CDLHIKKAKE'' = [] \<and>
   length (classified_occurrences hikkake_series doji_params ''CDLHIKKAKEMOD'') = 3"
  by code_simp

subsection \<open>Parameter search engine\<close>


lemma print_line_cases:
  assumes "print_line e con m = Inr con1"
  shows "con1 = con @ [m]"
  using assms by (simp add: print_line_def split: if_splits)

lemma create_and_save_chart_console:
  assumes "create_and_save_chart e history con row = Inr (saved, con1)"
  shows "set con \<subseteq> set con1"
  using assms
  by (auto simp: create_and_save_chart_def chart_body_def print_line_def
        split: if_splits sum.splits chart_outcome.splits)

lemma create_and_save_chart_logged:
  assumes "create_and_save_chart e history con row = Inr (saved, con1)"
    and "kept row" and "render e history row = Raises"
  shows "\<not> saved \<and> Chart_error row \<in> set con1"
  using assms
  by (auto simp: create_and_save_chart_def chart_body_def print_line_def kept_def
        split: if_splits sum.splits)

lemma create_and_save_chart_total:
  assumes "\<forall>con m. print_ok e con m"
  shows "\<exists>saved con1. create_and_save_chart e history con row = Inr (saved, con1)"
  using assms
  by (auto simp: create_and_save_chart_def chart_body_def print_line_def
        split: chart_outcome.splits)

lemma cell_step_cases:
  assumes "cell_step e c st = Inr st'"
  obtains (skipped) "\<not> kept (row_of c)"
      "st' = st\<lparr>results_file := results_file st @ [row_of c]\<rparr>"
    | (charted) saved con1 line where "kept (row_of c)"
      "create_and_save_chart e (results_file st @ [row_of c]) (console st) (row_of c)
         = Inr (saved, con1)"
      "results_file st' = results_file st @ [row_of c]"
      "console st' = con1 @ [line]"
      "held_best st' =
           (if row_accuracy (row_of c) > best_accuracy st
            then (row_accuracy (row_of c), Some (candle_name (row_of c), row_params (row_of c)))
            else held_best st)"
proof -
  obtain prm candle cr where c: "c = (prm, candle, cr)" by (cases c)
  show ?thesis
  proof (cases "kept (row_of c)")
    case False
    with assms c have "st' = st\<lparr>results_file := results_file st @ [row_of c]\<rparr>"
      by (auto simp: cell_step_def row_of_def kept_def Let_def split: if_splits)
    with False show ?thesis by (rule skipped)
  next
    case True
    with assms c obtain saved con1 con2 line where
      a: "create_and_save_chart e (results_file st @ [row_of c]) (console st) (row_of c)
           = Inr (saved, con1)"
      and p: "print_line e con1 line = Inr con2"
      and r: "results_file st' = results_file st @ [row_of c]"
      and k: "console st' = con2"
      and h: "held_best st' =
           (if row_accuracy (row_of c) > best_accuracy st
            then (row_accuracy (row_of c), Some (candle_name (row_of c), row_params (row_of c)))
            else held_best st)"
      by (auto simp: cell_step_def row_of_def kept_def held_best_def Let_def
            split: if_splits sum.splits prod.splits)
    from print_line_cases[OF p] k have k': "console st' = con1 @ [line]" by simp
    from True a r k' h show ?thesis by (rule charted)
  qed
qed

lemma cell_step_rows:
  "cell_step e c st = Inr st' \<Longrightarrow> results_file st' = results_file st @ [row_of c]"
  by (erule cell_step_cases) simp_all

lemma cell_step_console:
  "cell_step e c st = Inr st' \<Longrightarrow> set (console st) \<subseteq> set (console st')"
  by (erule cell_step_cases) (auto dest: create_and_save_chart_console)

lemma cell_step_logged:
  assumes "cell_step e c st = Inr st'" and "kept (row_of c)"
    and "\<forall>history. render e history (row_of c) = Raises"
  shows "Chart_error (row_of c) \<in> set (console st')"
  using assms(1)
proof (cases rule: cell_step_cases)
  case skipped
  with assms(2) show ?thesis by simp
next
  case (charted saved con1 line)
  from create_and_save_chart_logged[OF charted(2) assms(2)] assms(3) charted(4)
  show ?thesis by simp
qed

lemma cell_step_total:
  assumes "\<forall>history row. append_ok e history row" and "\<forall>con m. print_ok e con m"
  shows "\<exists>st'. cell_step e c st = Inr st'"
proof -
  obtain prm candle cr where c: "c = (prm, candle, cr)" by (cases c)
  from create_and_save_chart_total[OF assms(2)] obtain saved con1 where
    "create_and_save_chart e (results_file st @ [row_of c]) (console st) (row_of c)
       = Inr (saved, con1)" by blast
  with assms c show ?thesis
    by (auto simp: cell_step_def row_of_def Let_def print_line_def)
qed

lemma cell_step_best_skip:
  assumes "cell_step e c st = Inr st'" and "\<not> kept (row_of c)"
  shows "held_best st' = held_best st"
  using assms by (auto elim!: cell_step_cases simp: held_best_def)

lemma cell_step_best_kept:
  assumes "cell_step e c st = Inr st'" and "kept (row_of c)"
  shows "held_best st' =
           (if row_accuracy (row_of c) > best_accuracy st
            then (row_accuracy (row_of c), Some (candle_name (row_of c), row_params (row_of c)))
            else held_best st)"
  using assms by (auto elim!: cell_step_cases)

lemma find_append:
  "find P (xs @ ys) = (case find P xs of None \<Rightarrow> find P ys | Some x \<Rightarrow> Some x)"
  by (induction xs) auto

lemma greatest_first_None: "greatest_first K = None \<Longrightarrow> K = []"
proof (rule ccontr)
  assume n: "greatest_first K = None" and ne: "K \<noteq> []"
  let ?A = "row_accuracy ` set K"
  from ne have fin: "finite ?A" "?A \<noteq> {}" by simp_all
  from Max_in[OF fin] obtain x where x: "x \<in> set K" "row_accuracy x = Max ?A" by auto
  have "\<forall>y \<in> set K. row_accuracy y \<le> row_accuracy x"
    using Max_ge[OF fin(1)] x(2) by simp
  with x(1) n show False by (auto simp: greatest_first_def find_None_iff list_all_iff)
qed

lemma greatest_first_Some:
  "greatest_first K = Some b \<Longrightarrow> b \<in> set K \<and> (\<forall>x \<in> set K. row_accuracy x \<le> row_accuracy b)"
  by (auto simp: greatest_first_def find_Some_iff list_all_iff)

lemma greatest_first_snoc:
  "greatest_first (K @ [r]) =
     (case greatest_first K of
        None \<Rightarrow> Some r
      | Some b \<Rightarrow> if row_accuracy r > row_accuracy b then Some r else Some b)"
proof (cases "greatest_first K")
  case None
  then have "K = []" by (rule greatest_first_None)
  with None show ?thesis by (simp add: greatest_first_def)
next
  case (Some b)
  from greatest_first_Some[OF Some] have b: "b \<in> set K"
    and mx: "\<forall>x \<in> set K. row_accuracy x \<le> row_accuracy b" by simp_all
  let ?P = "\<lambda>x. list_all (\<lambda>y. row_accuracy y \<le> row_accuracy x) K"
  let ?P' = "\<lambda>x. list_all (\<lambda>y. row_accuracy y \<le> row_accuracy x) (K @ [r])"
  show ?thesis
  proof (cases "row_accuracy r > row_accuracy b")
    case True
    have "\<forall>x \<in> set K. \<not> ?P' x" using mx True by fastforce
    then have "find ?P' K = None" by (simp add: find_None_iff)
    moreover have "?P' r" using mx True by (fastforce simp: list_all_iff)
    ultimately show ?thesis using Some True
      by (simp add: greatest_first_def find_append)
  next
    case False
    have "\<And>x. x \<in> set K \<Longrightarrow> ?P' x = ?P x"
      using b False by (fastforce simp: list_all_iff)
    then have "find ?P' K = find ?P K" by (intro find_cong) simp_all
    with Some False show ?thesis
      by (simp add: greatest_first_def find_append)
  qed
qed

lemma cell_step_invariant:
  assumes s: "cell_step e c st = Inr st'"
    and i: "held_best st = as_best (greatest_first (filter kept (results_file st)))"
  shows "held_best st' = as_best (greatest_first (filter kept (results_file st')))"
proof -
  note rows = cell_step_rows[OF s]
  show ?thesis
  proof (cases "kept (row_of c)")
    case False
    with rows cell_step_best_skip[OF s False] i show ?thesis by simp
  next
    case True
    let ?K = "filter kept (results_file st)"
    from True rows have k: "filter kept (results_file st') = ?K @ [row_of c]" by simp
    from True have pos: "row_accuracy (row_of c) > 0"
      by (simp add: kept_def MIN_ACCURACY_THRESHOLD_def)
    show ?thesis
    proof (cases "greatest_first ?K")
      case None
      with i have "best_accuracy st = 0" by (simp add: held_best_def as_best_def)
      with pos cell_step_best_kept[OF s True] None show ?thesis
        unfolding k by (simp add: greatest_first_snoc as_best_def)
    next
      case (Some b)
      with i have "best_accuracy st = row_accuracy b"
        "held_best st = (row_accuracy b, Some (candle_name b, row_params b))"
        by (simp_all add: held_best_def as_best_def)
      with cell_step_best_kept[OF s True] Some show ?thesis
        unfolding k by (simp add: greatest_first_snoc as_best_def)
    qed
  qed
qed


lemma run_cells_rows:
  "run_cells e st cells = Inr st' \<Longrightarrow> results_file st' = results_file st @ map row_of cells"
proof (induction cells arbitrary: st)
  case Nil
  then show ?case by simp
next
  case (Cons c cells)
  from Cons.prems obtain st1 where s: "cell_step e c st = Inr st1"
    and r: "run_cells e st1 cells = Inr st'"
    by (auto split: sum.splits)
  from cell_step_rows[OF s] Cons.IH[OF r] show ?case by simp
qed

lemma run_cells_console:
  "run_cells e st cells = Inr st' \<Longrightarrow> set (console st) \<subseteq> set (console st')"
proof (induction cells arbitrary: st)
  case Nil
  then show ?case by simp
next
  case (Cons c cells)
  from Cons.prems obtain st1 where s: "cell_step e c st = Inr st1"
    and r: "run_cells e st1 cells = Inr st'"
    by (auto split: sum.splits)
  from cell_step_console[OF s] Cons.IH[OF r] show ?case by blast
qed

lemma run_cells_logged:
  assumes "run_cells e st cells = Inr st'" and "c \<in> set cells" and "kept (row_of c)"
    and "\<forall>history. render e history (row_of c) = Raises"
  shows "Chart_error (row_of c) \<in> set (console st')"
  using assms(1,2)
proof (induction cells arbitrary: st)
  case Nil
  then show ?case by simp
next
  case (Cons d cells)
  from Cons.prems(1) obtain st1 where s: "cell_step e d st = Inr st1"
    and r: "run_cells e st1 cells = Inr st'"
    by (auto split: sum.splits)
  show ?case
  proof (cases "c = d")
    case True
    with cell_step_logged[OF _ assms(3,4)] s have "Chart_error (row_of c) \<in> set (console st1)"
      by simp
    with run_cells_console[OF r] show ?thesis by blast
  next
    case False
    with Cons.prems(2) have "c \<in> set cells" by simp
    from Cons.IH[OF r this] show ?thesis .
  qed
qed

lemma run_cells_total:
  assumes "\<forall>history row. append_ok e history row" and "\<forall>con m. print_ok e con m"
  shows "\<exists>st'. run_cells e st cells = Inr st'"
proof (induction cells arbitrary: st)
  case Nil
  then show ?case by simp
next
  case (Cons c cells)
  from cell_step_total[OF assms, of c st] obtain st1 where "cell_step e c st = Inr st1"
    by blast
  with Cons.IH[of st1] show ?case by simp
qed

lemma run_cells_invariant:
  assumes "run_cells e st cells = Inr st'"
    and "held_best st = as_best (greatest_first (filter kept (results_file st)))"
  shows "held_best st' = as_best (greatest_first (filter kept (results_file st')))"
  using assms
proof (induction cells arbitrary: st)
  case Nil
  then show ?case by simp
next
  case (Cons c cells)
  from Cons.prems(1) obtain st1 where s: "cell_step e c st = Inr st1"
    and r: "run_cells e st1 cells = Inr st'"
    by (auto split: sum.splits)
  from Cons.IH[OF r cell_step_invariant[OF s Cons.prems(2)]] show ?case .
qed

lemma begin_combination_cases:
  assumes "begin_combination e st = Inr st0"
  shows "results_file st0 = results_file st \<and> held_best st0 = held_best st \<and>
         set (console st) \<subseteq> set (console st0)"
  using assms
  by (auto simp: begin_combination_def print_line_def held_best_def Let_def
        split: if_splits)

lemma begin_combination_total:
  assumes "\<forall>con m. print_ok e con m"
  shows "\<exists>st0. begin_combination e st = Inr st0"
  using assms by (simp add: begin_combination_def print_line_def Let_def)

lemma optimize_loop_step:
  assumes "optimize_loop e data names st (prm # rest) = Inr st'"
  obtains st0 st1 where "begin_combination e st = Inr st0"
    "run_cells e st0 (cells_of data names prm) = Inr st1"
    "optimize_loop e data names st1 rest = Inr st'"
  using assms by (auto simp: cells_of_def split: sum.splits)

lemma optimize_loop_rows:
  "optimize_loop e data names st combos = Inr st' \<Longrightarrow>
     results_file st' = results_file st @ map row_of (concat (map (cells_of data names) combos))"
proof (induction combos arbitrary: st)
  case Nil
  then show ?case by simp
next
  case (Cons prm rest)
  from Cons.prems obtain st0 st1 where b: "begin_combination e st = Inr st0"
    and r: "run_cells e st0 (cells_of data names prm) = Inr st1"
    and l: "optimize_loop e data names st1 rest = Inr st'"
    by (rule optimize_loop_step)
  from begin_combination_cases[OF b] run_cells_rows[OF r] Cons.IH[OF l] show ?case by simp
qed

lemma optimize_loop_console:
  "optimize_loop e data names st combos = Inr st' \<Longrightarrow> set (console st) \<subseteq> set (console st')"
proof (induction combos arbitrary: st)
  case Nil
  then show ?case by simp
next
  case (Cons prm rest)
  from Cons.prems obtain st0 st1 where b: "begin_combination e st = Inr st0"
    and r: "run_cells e st0 (cells_of data names prm) = Inr st1"
    and l: "optimize_loop e data names st1 rest = Inr st'"
    by (rule optimize_loop_step)
  from begin_combination_cases[OF b] run_cells_console[OF r] Cons.IH[OF l] show ?case by blast
qed

lemma optimize_loop_logged:
  assumes "optimize_loop e data names st combos = Inr st'"
    and "c \<in> set (concat (map (cells_of data names) combos))" and "kept (row_of c)"
    and "\<forall>history. render e history (row_of c) = Raises"
  shows "Chart_error (row_of c) \<in> set (console st')"
  using assms(1,2)
proof (induction combos arbitrary: st)
  case Nil
  then show ?case by simp
next
  case (Cons prm rest)
  from Cons.prems(1) obtain st0 st1 where b: "begin_combination e st = Inr st0"
    and r: "run_cells e st0 (cells_of data names prm) = Inr st1"
    and l: "optimize_loop e data names st1 rest = Inr st'"
    by (rule optimize_loop_step)
  show ?case
  proof (cases "c \<in> set (cells_of data names prm)")
    case True
    from run_cells_logged[OF r True assms(3,4)] optimize_loop_console[OF l]
    show ?thesis by blast
  next
    case False
    with Cons.prems(2) have "c \<in> set (concat (map (cells_of data names) rest))" by simp
    from Cons.IH[OF l this] show ?thesis .
  qed
qed

lemma optimize_loop_invariant:
  assumes "optimize_loop e data names st combos = Inr st'"
    and "held_best st = as_best (greatest_first (filter kept (results_file st)))"
  shows "held_best st' = as_best (greatest_first (filter kept (results_file st')))"
  using assms
proof (induction combos arbitrary: st)
  case Nil
  then show ?case by simp
next
  case (Cons prm rest)
  from Cons.prems(1) obtain st0 st1 where b: "begin_combination e st = Inr st0"
    and r: "run_cells e st0 (cells_of data names prm) = Inr st1"
    and l: "optimize_loop e data names st1 rest = Inr st'"
    by (rule optimize_loop_step)
  from begin_combination_cases[OF b] Cons.prems(2)
  have "held_best st0 = as_best (greatest_first (filter kept (results_file st0)))" by simp
  from Cons.IH[OF l run_cells_invariant[OF r this]] show ?case .
qed

lemma init_state_invariant:
  "held_best init_state = as_best (greatest_first (filter kept (results_file init_state)))"
  by (simp add: held_best_def as_best_def init_state_def greatest_first_def)

text \<open>
  C3, as the code has it. After any prefix of the cells (and after any prefix of the
  combinations of the grid) the report holds the results examined so far, in order,
  and the best-so-far result is the first of greatest accuracy among the kept ones of
  them: it is updated on strictly greater accuracy only, and only inside the branch
  of a kept result. With no kept result so far it is the initial one (accuracy 0, no
  parameters).
\<close>

theorem best_is_first_greatest_kept:
  "(run_cells e init_state (take k cells) = Inr st \<longrightarrow>
      results_file st = map row_of (take k cells) \<and>
      held_best st = as_best (greatest_first (filter kept (results_file st)))) \<and>
   (optimize_loop e data names init_state (take j (grid eos mts tts lps tps sps)) = Inr st2 \<longrightarrow>
      results_file st2 =
        map row_of (concat (map (cells_of data names) (take j (grid eos mts tts lps tps sps)))) \<and>
      held_best st2 = as_best (greatest_first (filter kept (results_file st2))))"
proof (intro conjI impI)
  assume r: "run_cells e init_state (take k cells) = Inr st"
  from run_cells_rows[OF r] show "results_file st = map row_of (take k cells)"
    by (simp add: init_state_def)
  from run_cells_invariant[OF r init_state_invariant]
  show "held_best st = as_best (greatest_first (filter kept (results_file st)))" .
next
  assume o: "optimize_loop e data names init_state (take j (grid eos mts tts lps tps sps)) = Inr st2"
  from optimize_loop_rows[OF o]
  show "results_file st2 =
        map row_of (concat (map (cells_of data names) (take j (grid eos mts tts lps tps sps))))"
    by (simp add: init_state_def)
  from optimize_loop_invariant[OF o init_state_invariant]
  show "held_best st2 = as_best (greatest_first (filter kept (results_file st2)))" .
qed

text \<open>
  After the one unkept cell the best is still the initial one. On the doji series
  with two targets and two stops the first two combinations both reach 100 percent
  and are kept; the best held at the end is the first of them.
\<close>

theorem best_is_first_greatest_kept_witness:
  "\<exists>st st2.
     run_cells all_fine init_state (take 1 [weak_cell]) = Inr st \<and>
     held_best st = (0, None) \<and>
     optimize_loop all_fine doji_series [''CDLDOJI'', ''CDLHAMMER''] init_state
       (take 4 (grid [1] [1] [1] [60] [3, 30] [1, 50])) = Inr st2 \<and>
     held_best st2 = (100, Some (''CDLDOJI'', doji_params))"
proof -
  have "case run_cells all_fine init_state (take 1 [weak_cell]) of
          Inl err \<Rightarrow> False
        | Inr st \<Rightarrow> as_best (greatest_first (filter kept (results_file st))) = (0, None)"
    by code_simp
  then obtain st where r: "run_cells all_fine init_state (take 1 [weak_cell]) = Inr st"
    and g: "as_best (greatest_first (filter kept (results_file st))) = (0, None)"
    by (auto split: sum.splits)
  have "case optimize_loop all_fine doji_series [''CDLDOJI'', ''CDLHAMMER''] init_state
               (take 4 (grid [1] [1] [1] [60] [3, 30] [1, 50])) of
          Inl err \<Rightarrow> False
        | Inr st2 \<Rightarrow> as_best (greatest_first (filter kept (results_file st2)))
                      = (100, Some (''CDLDOJI'', doji_params))"
    by code_simp
  then obtain st2 where
    o: "optimize_loop all_fine doji_series [''CDLDOJI'', ''CDLHAMMER''] init_state
          (take 4 (grid [1] [1] [1] [60] [3, 30] [1, 50])) = Inr st2"
    and g2: "as_best (greatest_first (filter kept (results_file st2)))
               = (100, Some (''CDLDOJI'', doji_params))"
    by (auto split: sum.splits)
  from best_is_first_greatest_kept[where e = all_fine and k = 1 and cells = "[weak_cell]"
      and st = st and data = doji_series and names = "[''CDLDOJI'', ''CDLHAMMER'']" and j = 4
      and eos = "[1]" and mts = "[1]" and tts = "[1]" and lps = "[60]" and tps = "[3, 30]"
      and sps = "[1, 50]" and ?st2.0 = st2] r o g g2
  have "held_best st = (0, None)" "held_best st2 = (100, Some (''CDLDOJI'', doji_params))"
    by simp_all
  with r o show ?thesis by blast
qed

text \<open>
  C3 as stated fails. With a target of 15 percent one of the three dojis succeeds:
  the only result examined has accuracy 100/3, it is not kept, and the engine holds
  no best result, although the greatest accuracy examined is 100/3. The same for a
  single cell of 50 percent.
\<close>

theorem best_ignores_unkept_counterexample:
  "map_sum id held_best
     (optimize_parameters all_fine doji_series [''CDLDOJI''] [1] [1] [1] [60] [15] [1])
     = Inr (0, None) \<and>
   map_sum id (\<lambda>st. as_best (greatest_first (results_file st)))
     (optimize_parameters all_fine doji_series [''CDLDOJI''] [1] [1] [1] [60] [15] [1])
     = Inr (100 / 3, Some (''CDLDOJI'',
          \<lparr>extrema_order = 1, min_touches = 1, touch_threshold = 1,
           level_proximity_threshold = 60, target_percent = 15, stop_percent = 1\<rparr>)) \<and>
   map_sum id held_best (run_cells all_fine init_state [weak_cell]) = Inr (0, None) \<and>
   map_sum id (\<lambda>st. as_best (greatest_first (results_file st)))
     (run_cells all_fine init_state [weak_cell]) = Inr (50, Some (''CDLDOJI'', doji_params))"
  by code_simp


lemma find_extreme_levels_total:
  "1 \<le> order \<Longrightarrow> \<exists>sl rl. find_extreme_levels data order m t = Inr (sl, rl)"
  by (simp add: find_extreme_levels_def argrelextrema_def Let_def)

lemma candle_loop_total:
  assumes "\<forall>irow \<in> set filtered. stats_key (snd irow) \<in> set (map fst init_pattern_stats)"
  shows "\<exists>res. candle_loop crypto filtered tp sp names acc = Inr res"
proof (induction names arbitrary: acc)
  case Nil
  then show ?case by simp
next
  case (Cons candle names)
  show ?case
  proof (cases "select_candle candle filtered = []")
    case True
    with Cons.IH[of acc] show ?thesis by simp
  next
    case False
    have keys: "\<forall>irow \<in> set (select_candle candle filtered).
                  stats_key (snd irow) \<in> set (map fst init_pattern_stats)"
      using assms select_candle_subset[of candle filtered] by blast
    have w0: "wf_stats init_pattern_stats"
      by (simp add: wf_stats_def init_pattern_stats_def)
    from stats_loop_props[OF keys w0, of crypto tp sp] obtain ps where
      s: "stats_loop crypto tp sp (select_candle candle filtered) init_pattern_stats = Inr ps"
      and w: "wf_stats ps" by blast
    from calculate_average_accuracy_wf[OF w] obtain a n where
      c: "calculate_average_accuracy ps = Inr (a, n)" by blast
    from Cons.IH[of "AList.update candle
                     \<lparr>pattern_stats = ps, avg_accuracy = a,
                      total_predictions = n, pattern_data = select_candle candle filtered\<rparr> acc"]
      False s c
    show ?thesis by (simp add: Let_def)
  qed
qed

lemma process_crypto_data_total:
  assumes "1 \<le> extrema_order prm"
  shows "\<exists>res. process_crypto_data data names prm = Inr res"
proof -
  from find_extreme_levels_total[OF assms] obtain sl rl where
    f: "find_extreme_levels data (extrema_order prm) (min_touches prm) (touch_threshold prm)
          = Inr (sl, rl)" by blast
  let ?crypto = "map (classify_row sl rl (level_proximity_threshold prm)) data"
  have "\<forall>irow \<in> set (all_filtered_patterns ?crypto).
          stats_key (snd irow) \<in> set (map fst init_pattern_stats)"
    using all_filtered_patterns_mem[of _ sl rl "level_proximity_threshold prm" data] by blast
  from candle_loop_total[OF this, of ?crypto "target_percent prm" "stop_percent prm" names "[]"]
  obtain rbc where "candle_loop ?crypto (all_filtered_patterns ?crypto)
      (target_percent prm) (stop_percent prm) names [] = Inr rbc" by blast
  with f show ?thesis by (simp add: process_crypto_data_def Let_def)
qed

lemma grid_extrema_order:
  "prm \<in> set (grid eos mts tts lps tps sps) \<Longrightarrow> extrema_order prm \<in> set eos"
  by (auto simp: grid_def)

lemma optimize_loop_total:
  assumes "\<forall>prm \<in> set combos. 1 \<le> extrema_order prm"
    and "\<forall>history row. append_ok e history row" and "\<forall>con m. print_ok e con m"
  shows "\<exists>st'. optimize_loop e data names st combos = Inr st'"
  using assms(1)
proof (induction combos arbitrary: st)
  case Nil
  then show ?case by simp
next
  case (Cons prm rest)
  from begin_combination_total[OF assms(3)] obtain st0 where
    b: "begin_combination e st = Inr st0" by blast
  from Cons.prems process_crypto_data_total[of prm data names] obtain res where
    p: "process_crypto_data data names prm = Inr res" by auto
  from run_cells_total[OF assms(2,3)] obtain st1 where
    r: "run_cells e st0 (map (\<lambda>(candle, cr). (prm, candle, cr)) (results_by_candle res)) = Inr st1"
    by blast
  from Cons.prems have "\<forall>prm \<in> set rest. 1 \<le> extrema_order prm" by simp
  from Cons.IH[OF this, of st1] b p r show ?case by simp
qed

lemma update_fresh: "k \<notin> fst ` set al \<Longrightarrow> AList.update k v al = al @ [(k, v)]"
  by (induction al) auto

lemma candle_loop_keys:
  assumes "candle_loop crypto filtered tp sp names acc = Inr res" and "distinct names"
    and "set names \<inter> fst ` set acc = {}"
  shows "map fst res = map fst acc @ filter (\<lambda>c. select_candle c filtered \<noteq> []) names"
  using assms
proof (induction names arbitrary: acc)
  case Nil
  then show ?case by simp
next
  case (Cons candle names)
  from Cons.prems have d: "distinct names" and fresh: "candle \<notin> fst ` set acc"
    and notin: "candle \<notin> set names" and disj: "set names \<inter> fst ` set acc = {}"
    by auto
  show ?case
  proof (cases "select_candle candle filtered = []")
    case True
    with Cons.prems(1) have "candle_loop crypto filtered tp sp names acc = Inr res" by simp
    from Cons.IH[OF this d disj] True show ?thesis by simp
  next
    case False
    with Cons.prems(1) obtain v where
      l: "candle_loop crypto filtered tp sp names (AList.update candle v acc) = Inr res"
      by (auto simp: Let_def split: sum.splits)
    from update_fresh[OF fresh] have u: "AList.update candle v acc = acc @ [(candle, v)]" .
    from notin disj have "set names \<inter> fst ` set (acc @ [(candle, v)]) = {}" by auto
    from Cons.IH[OF l[unfolded u] d this] False show ?thesis by simp
  qed
qed

lemma process_crypto_data_keys:
  assumes "process_crypto_data data names prm = Inr res" and "distinct names"
  shows "map fst (results_by_candle res) = filter (\<lambda>c. selected_rows data prm c \<noteq> []) names"
proof -
  from assms(1) obtain sl rl where
    f: "find_extreme_levels data (extrema_order prm) (min_touches prm) (touch_threshold prm) = Inr (sl, rl)"
    and l: "candle_loop (map (classify_row sl rl (level_proximity_threshold prm)) data)
       (all_filtered_patterns (map (classify_row sl rl (level_proximity_threshold prm)) data))
       (target_percent prm) (stop_percent prm) names [] = Inr (results_by_candle res)"
    by (rule process_crypto_data_cases)
  from candle_loop_keys[OF l assms(2)] f show ?thesis by (simp add: selected_rows_def)
qed

lemma cells_of_keys:
  assumes "process_crypto_data data names prm = Inr res" and "distinct names"
  shows "map (\<lambda>r. (row_params r, candle_name r)) (map row_of (cells_of data names prm))
           = map (Pair prm) (filter (\<lambda>c. selected_rows data prm c \<noteq> []) names)"
proof -
  have "map (\<lambda>r. (row_params r, candle_name r)) (map row_of (cells_of data names prm))
          = map (Pair prm) (map fst (results_by_candle res))"
    using assms(1) by (simp add: cells_of_def row_of_def split_beta comp_def)
  with process_crypto_data_keys[OF assms] show ?thesis by simp
qed

lemma optimize_loop_processes:
  "optimize_loop e data names st combos = Inr st' \<Longrightarrow> prm \<in> set combos \<Longrightarrow>
     \<exists>res. process_crypto_data data names prm = Inr res"
proof (induction combos arbitrary: st)
  case Nil
  then show ?case by simp
next
  case (Cons p rest)
  from Cons.prems(1) obtain res st1 where a: "process_crypto_data data names p = Inr res"
    and b: "optimize_loop e data names st1 rest = Inr st'"
    by (auto split: sum.splits)
  from Cons.prems(2) Cons.IH[OF b] a show ?case by auto
qed

lemma all_cells_keys:
  assumes "\<forall>prm \<in> set combos. \<exists>res. process_crypto_data data names prm = Inr res"
    and "distinct names"
  shows "map (\<lambda>r. (row_params r, candle_name r))
           (map row_of (concat (map (cells_of data names) combos)))
         = concat (map (\<lambda>prm. map (Pair prm)
               (filter (\<lambda>c. selected_rows data prm c \<noteq> []) names)) combos)"
  using assms(1)
proof (induction combos)
  case Nil
  then show ?case by simp
next
  case (Cons prm rest)
  from Cons.prems obtain res where p: "process_crypto_data data names prm = Inr res" by auto
  from Cons.prems have "\<forall>prm \<in> set rest. \<exists>res. process_crypto_data data names prm = Inr res"
    by simp
  from Cons.IH[OF this] cells_of_keys[OF p assms(2)] show ?case by simp
qed

lemma cells_of_mem:
  assumes "c \<in> set (cells_of data names prm)"
  shows "\<exists>res cr. process_crypto_data data names prm = Inr res \<and>
           (candle_name (row_of c), cr) \<in> set (results_by_candle res) \<and>
           row_params (row_of c) = prm \<and>
           row_accuracy (row_of c) = avg_accuracy cr \<and>
           row_predictions (row_of c) = total_predictions cr"
proof (cases "process_crypto_data data names prm")
  case (Inl err)
  with assms show ?thesis by (simp add: cells_of_def)
next
  case (Inr res)
  with assms obtain candle cr where "(candle, cr) \<in> set (results_by_candle res)"
    "c = (prm, candle, cr)"
    by (auto simp: cells_of_def)
  with Inr show ?thesis by (auto simp: row_of_def)
qed


lemma str_in_prefix: "str_in c (c @ s)"
proof (cases "c @ s")
  case Nil
  then show ?thesis by simp
next
  case (Cons a list)
  from arg_cong[OF Cons, of "take (length c)"] have "take (length c) (a # list) = c" by simp
  then show ?thesis unfolding Cons by simp
qed

lemma occurrence_of_selected:
  "occurrence_of candle row \<Longrightarrow> str_in candle (candlestick_pattern row)"
  by (auto simp: occurrence_of_def str_in_prefix)

lemma classified_occurrences_selected:
  assumes "classified_occurrences data prm candle \<noteq> []"
  shows "selected_rows data prm candle \<noteq> []"
proof (cases "find_extreme_levels data (extrema_order prm) (min_touches prm) (touch_threshold prm)")
  case (Inl err)
  with assms show ?thesis by (simp add: classified_occurrences_def classified_rows_def)
next
  case (Inr levels)
  obtain sl rl where levels: "levels = (sl, rl)" by (cases levels)
  let ?rows = "all_filtered_patterns (map (classify_row sl rl (level_proximity_threshold prm)) data)"
  from assms Inr levels obtain i row where m: "(i, row) \<in> set ?rows"
    and o: "occurrence_of candle row"
    by (auto simp: classified_occurrences_def classified_rows_def filter_empty_conv)
  from o have "str_in candle (candlestick_pattern row)" by (rule occurrence_of_selected)
  with m have "(i, row) \<in> set (select_candle candle ?rows)"
    by (simp add: select_candle_def)
  with Inr levels show ?thesis by (auto simp: selected_rows_def)
qed

lemma nothing_classified_nothing_selected:
  "classified_rows data prm = [] \<Longrightarrow> selected_rows data prm candle = []"
  by (auto simp: classified_rows_def selected_rows_def select_candle_def split: sum.splits)

text \<open>
  C4, as the code has it (the candle names being distinct). For every combination of
  the grid, in order, the report has at most one row for each candle name, in the
  order of the names, and exactly one for every name that has at least one
  classified occurrence under that combination; a combination under which nothing
  is classified has no row. Whether the result is kept plays no role. Each row
  carries the accuracy and the number of predictions computed for its combination
  and name.
\<close>

theorem rows_follow_classified_occurrences:
  assumes "distinct candle_names"
    and "optimize_parameters e data candle_names eos mts tts lps tps sps = Inr st"
  shows "(\<exists>emitted.
            map (\<lambda>r. (row_params r, candle_name r)) (results_file st)
              = concat (map (\<lambda>prm. map (Pair prm) (filter (emitted prm) candle_names))
                  (grid eos mts tts lps tps sps)) \<and>
            (\<forall>prm c. classified_occurrences data prm c \<noteq> [] \<longrightarrow> emitted prm c) \<and>
            (\<forall>prm c. classified_rows data prm = [] \<longrightarrow> \<not> emitted prm c)) \<and>
         (\<forall>r \<in> set (results_file st). \<exists>res cr.
            process_crypto_data data candle_names (row_params r) = Inr res \<and>
            (candle_name r, cr) \<in> set (results_by_candle res) \<and>
            row_accuracy r = avg_accuracy cr \<and>
            row_predictions r = total_predictions cr)"
proof -
  from assms(2) have o: "optimize_loop e data candle_names init_state
      (grid eos mts tts lps tps sps) = Inr st"
    by (simp add: optimize_parameters_def)
  from optimize_loop_rows[OF o] have rows: "results_file st =
      map row_of (concat (map (cells_of data candle_names) (grid eos mts tts lps tps sps)))"
    by (simp add: init_state_def)
  have ok: "\<forall>prm \<in> set (grid eos mts tts lps tps sps).
              \<exists>res. process_crypto_data data candle_names prm = Inr res"
    using optimize_loop_processes[OF o] by blast
  let ?emitted = "\<lambda>prm c. selected_rows data prm c \<noteq> []"
  have a: "map (\<lambda>r. (row_params r, candle_name r)) (results_file st)
           = concat (map (\<lambda>prm. map (Pair prm) (filter (?emitted prm) candle_names))
               (grid eos mts tts lps tps sps))"
    unfolding rows by (rule all_cells_keys[OF ok assms(1)])
  have b1: "\<forall>prm c. classified_occurrences data prm c \<noteq> [] \<longrightarrow> ?emitted prm c"
    using classified_occurrences_selected by blast
  have b2: "\<forall>prm c. classified_rows data prm = [] \<longrightarrow> \<not> ?emitted prm c"
    using nothing_classified_nothing_selected by blast
  from a b1 b2 have first: "\<exists>emitted.
            map (\<lambda>r. (row_params r, candle_name r)) (results_file st)
              = concat (map (\<lambda>prm. map (Pair prm) (filter (emitted prm) candle_names))
                  (grid eos mts tts lps tps sps)) \<and>
            (\<forall>prm c. classified_occurrences data prm c \<noteq> [] \<longrightarrow> emitted prm c) \<and>
            (\<forall>prm c. classified_rows data prm = [] \<longrightarrow> \<not> emitted prm c)"
    by (intro exI[of _ ?emitted] conjI)
  have second: "\<forall>r \<in> set (results_file st). \<exists>res cr.
            process_crypto_data data candle_names (row_params r) = Inr res \<and>
            (candle_name r, cr) \<in> set (results_by_candle res) \<and>
            row_accuracy r = avg_accuracy cr \<and>
            row_predictions r = total_predictions cr"
  proof
    fix r assume "r \<in> set (results_file st)"
    with rows obtain c prm where c: "c \<in> set (cells_of data candle_names prm)" and r: "r = row_of c"
      by auto
    from cells_of_mem[OF c] r show "\<exists>res cr.
            process_crypto_data data candle_names (row_params r) = Inr res \<and>
            (candle_name r, cr) \<in> set (results_by_candle res) \<and>
            row_accuracy r = avg_accuracy cr \<and>
            row_predictions r = total_predictions cr"
      by auto
  qed
  from first second show ?thesis by (rule conjI)
qed

text \<open>
  Two combinations (proximity 60 and 0) and two names: the doji has its row under the
  first combination, and the second, under which nothing is classified, has none.
\<close>

theorem rows_follow_classified_occurrences_witness:
  "distinct [''CDLDOJI'', ''CDLHAMMER''] \<and>
   (\<exists>st. optimize_parameters all_fine doji_series [''CDLDOJI'', ''CDLHAMMER'']
            [1] [1] [1] [60, 0] [3] [1] = Inr st \<and>
         (doji_params, ''CDLDOJI'')
            \<in> set (map (\<lambda>r. (row_params r, candle_name r)) (results_file st)) \<and>
         doji_params\<lparr>level_proximity_threshold := 0\<rparr>
            \<notin> set (map row_params (results_file st)))"
proof -
  let ?names = "[''CDLDOJI'', ''CDLHAMMER'']"
  let ?p0 = "doji_params\<lparr>level_proximity_threshold := 0\<rparr>"
  have d: "distinct ?names" by simp
  have "case optimize_parameters all_fine doji_series ?names
            [1] [1] [1] [60, 0] [3] [1] of Inl err \<Rightarrow> False | Inr st \<Rightarrow> True"
    by code_simp
  then obtain st where o: "optimize_parameters all_fine doji_series ?names
            [1] [1] [1] [60, 0] [3] [1] = Inr st"
    by (auto split: sum.splits)
  have g: "grid [1] [1] [1] [60, 0] [3] [1] = [doji_params, ?p0]"
    by (simp add: grid_def doji_params_def)
  have c1: "classified_occurrences doji_series doji_params ''CDLDOJI'' \<noteq> []"
    by code_simp
  have c2: "classified_rows doji_series ?p0 = []"
    by code_simp
  have ne: "doji_params \<noteq> ?p0" by (simp add: doji_params_def)
  from rows_follow_classified_occurrences[OF d o] obtain emitted where
    k: "map (\<lambda>r. (row_params r, candle_name r)) (results_file st)
          = concat (map (\<lambda>prm. map (Pair prm) (filter (emitted prm) ?names))
              (grid [1] [1] [1] [60, 0] [3] [1]))"
    and e1: "\<forall>prm c. classified_occurrences doji_series prm c \<noteq> [] \<longrightarrow> emitted prm c"
    and e2: "\<forall>prm c. classified_rows doji_series prm = [] \<longrightarrow> \<not> emitted prm c"
    by blast
  from e1 c1 have y: "emitted doji_params ''CDLDOJI''" by blast
  from e2 c2 have n: "\<And>c. \<not> emitted ?p0 c" by blast
  from k g y n have k': "map (\<lambda>r. (row_params r, candle_name r)) (results_file st)
      = map (Pair doji_params) (filter (emitted doji_params) ?names)"
    by simp
  from k' y have a: "(doji_params, ''CDLDOJI'')
            \<in> set (map (\<lambda>r. (row_params r, candle_name r)) (results_file st))"
    by simp
  have "map row_params (results_file st)
          = map fst (map (\<lambda>r. (row_params r, candle_name r)) (results_file st))"
    by (simp add: comp_def)
  with k' ne have b: "?p0 \<notin> set (map row_params (results_file st))"
    by (auto simp: comp_def)
  from d o a b show ?thesis by (intro conjI exI[of _ st])
qed

text \<open>
  C4 as stated fails. The grid has two combinations and there are two names, but the
  report has one row: none for CDLHAMMER, which no bar carries, and none at all
  under the proximity 0, under which no occurrence is classified.
\<close>

theorem rows_missing_counterexample:
  "length (grid [1] [1] [1] [60, 0] [3] [1]) = 2 \<and>
   length [''CDLDOJI'', ''CDLHAMMER''] = 2 \<and>
   map_sum id (\<lambda>st. map (\<lambda>r. (level_proximity_threshold (row_params r), candle_name r))
                      (results_file st))
     (optimize_parameters all_fine doji_series [''CDLDOJI'', ''CDLHAMMER'']
        [1] [1] [1] [60, 0] [3] [1])
     = Inr [(60, ''CDLDOJI'')]"
  by code_simp

text \<open>
  C8, as the code has it. When every candidate for \<open>extrema_order\<close> is at least 1,
  every append to the report succeeds and every line can be printed, the search
  runs over the whole grid and returns, and the report has the rows of all cells;
  and for every kept cell whose chart raises, the handler's line for that cell is on
  the console: the exception is caught and logged and the search goes on.
\<close>

theorem chart_errors_are_logged_and_search_completes:
  assumes "\<forall>eo \<in> set eos. 1 \<le> eo" and "\<forall>history row. append_ok e history row"
    and "\<forall>con m. print_ok e con m"
  shows "\<exists>st. optimize_parameters e data candle_names eos mts tts lps tps sps = Inr st \<and>
              results_file st =
                map row_of (concat (map (cells_of data candle_names)
                                      (grid eos mts tts lps tps sps))) \<and>
              (\<forall>c \<in> set (concat (map (cells_of data candle_names)
                                      (grid eos mts tts lps tps sps))).
                 kept (row_of c) \<and> (\<forall>history. render e history (row_of c) = Raises) \<longrightarrow>
                 Chart_error (row_of c) \<in> set (console st))"
proof -
  have "\<forall>prm \<in> set (grid eos mts tts lps tps sps). 1 \<le> extrema_order prm"
    using assms(1) grid_extrema_order by blast
  from optimize_loop_total[OF this assms(2,3)] obtain st where
    o: "optimize_loop e data candle_names init_state (grid eos mts tts lps tps sps) = Inr st"
    by blast
  from optimize_loop_rows[OF o] have r: "results_file st =
      map row_of (concat (map (cells_of data candle_names) (grid eos mts tts lps tps sps)))"
    by (simp add: init_state_def)
  have l: "\<forall>c \<in> set (concat (map (cells_of data candle_names)
                                      (grid eos mts tts lps tps sps))).
                 kept (row_of c) \<and> (\<forall>history. render e history (row_of c) = Raises) \<longrightarrow>
                 Chart_error (row_of c) \<in> set (console st)"
    using optimize_loop_logged[OF o] by blast
  from o have "optimize_parameters e data candle_names eos mts tts lps tps sps = Inr st"
    by (simp add: optimize_parameters_def)
  with r l show ?thesis by (intro exI[of _ st] conjI)
qed

text \<open>
  Every chart raises: both cells are reported, no chart is counted, and the handler's
  line for the first cell is on the console.
\<close>

theorem chart_errors_are_logged_and_search_completes_witness:
  "(1::int) \<le> 1 \<and> (\<forall>history row. append_ok always_raising history row) \<and>
   (\<forall>con m. print_ok always_raising con m) \<and>
   (\<exists>st. optimize_parameters always_raising doji_series [''CDLDOJI'', ''CDLHAMMER'']
            [1] [1] [1] [60] [3] [1, 50] = Inr st \<and>
         map row_accuracy (results_file st) = [100, 100] \<and>
         saved_charts st = 0 \<and>
         Chart_error \<lparr>row_params = doji_params, candle_name = ''CDLDOJI'',
                      row_accuracy = 100, row_predictions = 3\<rparr> \<in> set (console st))"
proof -
  let ?names = "[''CDLDOJI'', ''CDLHAMMER'']"
  let ?r = "\<lparr>row_params = doji_params, candle_name = ''CDLDOJI'',
             row_accuracy = 100, row_predictions = 3\<rparr>"
  have h0: "(1::int) \<le> 1" by simp
  have h1: "\<forall>eo \<in> set [1::int]. 1 \<le> eo" by simp
  have h2: "\<forall>history row. append_ok always_raising history row"
    by (simp add: always_raising_def)
  have h3: "\<forall>con m. print_ok always_raising con m"
    by (simp add: always_raising_def)
  from chart_errors_are_logged_and_search_completes[OF h1 h2 h3, of doji_series ?names
      "[1]" "[1]" "[60]" "[3]" "[1, 50]"]
  obtain st where o: "optimize_parameters always_raising doji_series ?names
            [1] [1] [1] [60] [3] [1, 50] = Inr st"
    and rows: "results_file st = map row_of (concat (map (cells_of doji_series ?names)
                                      (grid [1] [1] [1] [60] [3] [1, 50])))"
    and logged: "\<forall>c \<in> set (concat (map (cells_of doji_series ?names)
                                      (grid [1] [1] [1] [60] [3] [1, 50]))).
                 kept (row_of c) \<and> (\<forall>history. render always_raising history (row_of c) = Raises)
                 \<longrightarrow> Chart_error (row_of c) \<in> set (console st)"
    by blast
  have "case optimize_parameters always_raising doji_series ?names
            [1] [1] [1] [60] [3] [1, 50] of
          Inl err \<Rightarrow> True
        | Inr st \<Rightarrow> map row_accuracy (results_file st) = [100, 100] \<and> saved_charts st = 0 \<and>
                    hd (results_file st) = ?r"
    by code_simp
  with o have acc: "map row_accuracy (results_file st) = [100, 100]"
    and cnt: "saved_charts st = 0" and first: "hd (results_file st) = ?r"
    by simp_all
  from acc have "results_file st \<noteq> []" by auto
  with first have "?r \<in> set (results_file st)" by (metis hd_in_set)
  then have "?r \<in> row_of ` set (concat (map (cells_of doji_series ?names)
                                      (grid [1] [1] [1] [60] [3] [1, 50])))"
    unfolding rows by (simp only: set_map)
  then obtain c where c: "c \<in> set (concat (map (cells_of doji_series ?names)
                                      (grid [1] [1] [1] [60] [3] [1, 50])))"
    and rc: "row_of c = ?r"
    by (elim imageE) simp
  have k: "kept ?r" by (simp add: kept_def MIN_ACCURACY_THRESHOLD_def MIN_PREDICTIONS_COUNT_def)
  have rr: "\<forall>history. render always_raising history ?r = Raises"
    by (simp add: always_raising_def)
  from logged c rc k rr have lg: "Chart_error ?r \<in> set (console st)" by metis
  from h0 h2 h3 o acc cnt lg show ?thesis by (intro conjI exI[of _ st])
qed

text \<open>
  C8 as stated fails. An append to the report that raises is not caught: the search
  stops with the error at the first cell, the second combination is never processed.
  A candidate 0 for \<open>extrema_order\<close> makes the level detector raise, which stops the
  search before the combination with the candidate 1. And a progress line that
  cannot be printed stops it at the first combination.
\<close>

theorem search_aborts_counterexample:
  "optimize_parameters disk_full doji_series [''CDLDOJI''] [1] [1] [1] [60] [3] [1, 50]
     = Inl IOError \<and>
   optimize_parameters all_fine doji_series [''CDLDOJI''] [0, 1] [1] [1] [60] [3] [1]
     = Inl ValueError \<and>
   optimize_parameters closed_console doji_series [''CDLDOJI''] [1] [1] [1] [60] [3] [1]
     = Inl IOError"
  by code_simp

end
